theory Spec2Isabelle
  imports Main "HOL-Library.Char_ord" "HOL-Library.List_Lexorder" "HOL-Library.Multiset"
begin

section \<open>Values of the host language\<close>

text \<open>
  The visual of \<^verbatim>\<open>src/visual.ts\<close> is written in TypeScript. A thrown exception is a value
  of type \<open>error\<close>; the only exceptions the code can raise by itself are the \<open>TypeError\<close>s of
  reading a property of \<open>undefined\<close> or \<open>null\<close>, tagged here with the property that was read.

  A number of the language is a double. The model leaves the type \<open>'n\<close> of numbers open and
  takes what the code does with numbers from the language, as the record \<open>numbers\<close>: the
  truthiness of a number, its conversion to text, the number an integer literal denotes,
  and addition and subtraction. Nothing is assumed of these operations, so what is proved
  holds for doubles, whatever they print and however they round.

  A table cell is a primitive value of the host: \<open>undefined\<close>, \<open>null\<close>, a boolean, a number,
  a string or a date. A date is represented by the text its \<open>toString\<close> gives.
\<close>

datatype error = TypeError string

record 'n numbers =
  truthy_number :: "'n \<Rightarrow> bool"
  toString_number :: "'n \<Rightarrow> string"
  literal :: "int \<Rightarrow> 'n"
  add_number :: "'n \<Rightarrow> 'n \<Rightarrow> 'n"
  sub_number :: "'n \<Rightarrow> 'n \<Rightarrow> 'n"

datatype 'n cell =
    CUndefined
  | CNull
  | CBoolean bool
  | CNumber 'n
  | CString string
  | CDate string

fun truthy :: "'n numbers \<Rightarrow> 'n cell \<Rightarrow> bool" where
  "truthy N CUndefined = False"
| "truthy N CNull = False"
| "truthy N (CBoolean b) = b"
| "truthy N (CNumber n) = truthy_number N n"
| "truthy N (CString s) = (s \<noteq> [])"
| "truthy N (CDate d) = True"

text \<open>\<open>x.toString()\<close>: a \<open>TypeError\<close> on \<open>undefined\<close> and \<open>null\<close>.\<close>

fun toString :: "'n numbers \<Rightarrow> 'n cell \<Rightarrow> error + string" where
  "toString N CUndefined = Inl (TypeError ''toString'')"
| "toString N CNull = Inl (TypeError ''toString'')"
| "toString N (CBoolean b) = Inr (if b then ''true'' else ''false'')"
| "toString N (CNumber n) = Inr (toString_number N n)"
| "toString N (CString s) = Inr s"
| "toString N (CDate d) = Inr d"

section \<open>The data model\<close>

text \<open>
  \<open>Pipeline\<close> is the record the converter emits; \<open>None\<close> is \<open>null\<close>. A column of the host's
  table carries its role tags as an object, keyed by role name; a row is an array of cells.
  A table has its column list and its row list, and every column its role tags. A data
  view may lack its table, and the data view itself may be \<open>undefined\<close>.
\<close>

record Pipeline =
  Title :: "string option"
  Phase :: "string option"
  Category :: "string option"
  Name :: "string option"

record DataViewMetadataColumn =
  roles :: "string \<rightharpoonup> bool"

record 'n DataViewTable =
  columns :: "DataViewMetadataColumn list"
  rows :: "'n cell list list"

record 'n DataView =
  table :: "'n DataViewTable option"

definition hasOwnProperty :: "(string \<rightharpoonup> bool) \<Rightarrow> string \<Rightarrow> bool" where
  "hasOwnProperty obj k = (obj k \<noteq> None)"

section \<open>The converter\<close>

text \<open>
  The four located indices. \<open>None\<close> is \<open>undefined\<close>: the source declares
  \<^verbatim>\<open>let _titleIndex = -1, _phaseIndex = -1, _categoryIndex = -1, _nameIndex;\<close>
  so the name index starts without a value.
\<close>

record indices =
  titleIndex :: "int option"
  phaseIndex :: "int option"
  categoryIndex :: "int option"
  nameIndex :: "int option"

definition initial_indices :: indices where
  "initial_indices =
     \<lparr>titleIndex = Some (- 1), phaseIndex = Some (- 1), categoryIndex = Some (- 1),
      nameIndex = None\<rparr>"

text \<open>The body of the loop over the columns, at column index \<open>ti\<close>.\<close>

definition column_step :: "DataViewMetadataColumn \<Rightarrow> int \<Rightarrow> indices \<Rightarrow> indices" where
  "column_step c ti ix =
     (if hasOwnProperty (roles c) ''Title'' then ix\<lparr>titleIndex := Some ti\<rparr>
      else if hasOwnProperty (roles c) ''Phase'' then ix\<lparr>phaseIndex := Some ti\<rparr>
      else if hasOwnProperty (roles c) ''Category'' then ix\<lparr>categoryIndex := Some ti\<rparr>
      else if hasOwnProperty (roles c) ''Name'' then ix\<lparr>nameIndex := Some ti\<rparr>
      else ix)"

fun column_loop :: "DataViewMetadataColumn list \<Rightarrow> int \<Rightarrow> indices \<Rightarrow> indices" where
  "column_loop [] ti ix = ix"
| "column_loop (c # cs) ti ix = column_loop cs (ti + 1) (column_step c ti ix)"

definition located_indices :: "DataViewMetadataColumn list \<Rightarrow> indices" where
  "located_indices cols = column_loop cols 0 initial_indices"

text \<open>
  \<open>row[i]\<close>: \<open>undefined\<close> when the index is \<open>undefined\<close>, negative or beyond the row.
\<close>

definition row_at :: "'n cell list \<Rightarrow> int option \<Rightarrow> 'n cell" where
  "row_at row idx =
     (case idx of
        None \<Rightarrow> CUndefined
      | Some i \<Rightarrow> if 0 \<le> i \<and> i < int (length row) then row ! nat i else CUndefined)"

text \<open>\<^verbatim>\<open>c ? c.toString() : null\<close>\<close>

definition field_of_cell :: "'n numbers \<Rightarrow> 'n cell \<Rightarrow> error + string option" where
  "field_of_cell N c =
     (if truthy N c then (case toString N c of Inl e \<Rightarrow> Inl e | Inr s \<Rightarrow> Inr (Some s))
      else Inr None)"

definition make_dp :: "'n numbers \<Rightarrow> indices \<Rightarrow> 'n cell list \<Rightarrow> error + Pipeline" where
  "make_dp N ix row =
     (case field_of_cell N (row_at row (titleIndex ix)) of Inl e \<Rightarrow> Inl e | Inr t \<Rightarrow>
      case field_of_cell N (row_at row (phaseIndex ix)) of Inl e \<Rightarrow> Inl e | Inr p \<Rightarrow>
      case field_of_cell N (row_at row (categoryIndex ix)) of Inl e \<Rightarrow> Inl e | Inr c \<Rightarrow>
      case field_of_cell N (row_at row (nameIndex ix)) of Inl e \<Rightarrow> Inl e | Inr n \<Rightarrow>
        Inr \<lparr>Title = t, Phase = p, Category = c, Name = n\<rparr>)"

fun row_loop ::
  "'n numbers \<Rightarrow> 'n cell list list \<Rightarrow> indices \<Rightarrow> Pipeline list \<Rightarrow> error + Pipeline list" where
  "row_loop N [] ix resultData = Inr resultData"
| "row_loop N (row # rest) ix resultData =
     (case make_dp N ix row of
        Inl e \<Rightarrow> Inl e
      | Inr dp \<Rightarrow> row_loop N rest ix (resultData @ [dp]))"

text \<open>
  \<open>Visual.CONVERTER\<close>. Its second argument, the host, is not used by the source and is
  left out; the first argument here is the language's numbers.
\<close>

definition CONVERTER :: "'n numbers \<Rightarrow> 'n DataView option \<Rightarrow> error + Pipeline list" where
  "CONVERTER N dataView =
     (case dataView of
        None \<Rightarrow> Inl (TypeError ''table'')
      | Some dv \<Rightarrow>
          (case table dv of
             None \<Rightarrow> Inl (TypeError ''rows'')
           | Some tableView \<Rightarrow>
               row_loop N (rows tableView) (located_indices (columns tableView)) []))"

text \<open>What a record field is, given the cell it was read from.\<close>

definition text_or_null :: "'n numbers \<Rightarrow> 'n cell \<Rightarrow> string option \<Rightarrow> bool" where
  "text_or_null N c f =
     (case f of None \<Rightarrow> \<not> truthy N c | Some s \<Rightarrow> truthy N c \<and> toString N c = Inr s)"

section \<open>Strings\<close>

text \<open>
  \<open>toLowerCase\<close> on the letters A to Z; the code compares its result with \<open>header\<close> and
  \<open>footer\<close> only, and no character outside A to Z has one of their letters as lower case.
\<close>

definition lower_char :: "char \<Rightarrow> char" where
  "lower_char c =
     (case map_of (zip ''ABCDEFGHIJKLMNOPQRSTUVWXYZ'' ''abcdefghijklmnopqrstuvwxyz'') c of
        None \<Rightarrow> c
      | Some l \<Rightarrow> l)"

definition toLowerCase :: "string \<Rightarrow> string" where
  "toLowerCase s = map lower_char s"

text \<open>\<open>s.split(',')\<close>: the pieces between the commas; one empty piece for the empty string.\<close>

fun split_comma :: "string \<Rightarrow> string list" where
  "split_comma [] = [[]]"
| "split_comma (c # cs) =
     (if c = CHR '','' then [] # split_comma cs
      else (case split_comma cs of
              [] \<Rightarrow> [[c]]
            | w # ws \<Rightarrow> (c # w) # ws))"

section \<open>Settings\<close>

text \<open>
  Modelled from the spec: the settings class is in \<^verbatim>\<open>settings.ts\<close>, which is not among the
  sources. The spec lists its fields (title text, phase list, category list, image URL,
  layout mode) and has every field defaulted when absent; \<open>update\<close> reads them as strings,
  an unset one being the empty string.
\<close>

record pipelineSettings =
  title :: string
  phases :: string
  categories :: string
  imgURL :: string
  layout :: string

record VisualSettings =
  pipeline :: pipelineSettings

section \<open>The category colours\<close>

definition colors :: "string list" where
  "colors =
     [''#2ECC71'', ''#336EFF'', ''#641E16'', ''#FF5733'', ''#3498DB'', ''#4A235A'', ''#154360'',
      ''#0B5345'', ''#784212'', ''#424949'', ''#17202A'', ''#E74C3C'', ''#00ff00'', ''#0000ff'',
      ''#252D48'']"

text \<open>\<open>colors[i]\<close>: \<open>undefined\<close> (here \<open>None\<close>) beyond the palette.\<close>

definition colors_at :: "nat \<Rightarrow> string option" where
  "colors_at i = (if i < length colors then Some (colors ! i) else None)"

record categoryColor =
  category :: "string option"
  color :: "string option"

text \<open>\<open>self.indexOf(v)\<close>: the first index of \<open>v\<close>, or \<open>-1\<close>.\<close>

fun indexOf :: "'a list \<Rightarrow> 'a \<Rightarrow> int" where
  "indexOf [] v = - 1"
| "indexOf (x # xs) v =
     (if x = v then 0 else (let k = indexOf xs v in if k < 0 then - 1 else k + 1))"

text \<open>\<open>filter\<close> and \<open>map\<close> with a callback that also takes the index and the array.\<close>

fun filter_from :: "('a \<Rightarrow> nat \<Rightarrow> bool) \<Rightarrow> 'a list \<Rightarrow> nat \<Rightarrow> 'a list" where
  "filter_from p [] i = []"
| "filter_from p (v # vs) i = (if p v i then v # filter_from p vs (Suc i) else filter_from p vs (Suc i))"

fun map_from :: "('a \<Rightarrow> nat \<Rightarrow> 'b) \<Rightarrow> 'a list \<Rightarrow> nat \<Rightarrow> 'b list" where
  "map_from f [] i = []"
| "map_from f (v # vs) i = f v i # map_from f vs (Suc i)"

text \<open>
  \<open>sort()\<close> without a comparator orders the elements by their string conversions, \<open>null\<close>
  as the text \<open>null\<close>, and is stable. Strings are compared character by character by
  their codes, a proper prefix first.
\<close>

definition sort_text :: "string option \<Rightarrow> string" where
  "sort_text v = (case v of None \<Rightarrow> ''null'' | Some s \<Rightarrow> s)"

definition sort_default :: "string option list \<Rightarrow> string option list" where
  "sort_default vs = sort_key sort_text vs"

text \<open>The local \<open>categoryData\<close> of \<open>update\<close>, from the settings and the records to render.\<close>

definition categoryData_of :: "VisualSettings \<Rightarrow> Pipeline list \<Rightarrow> string option list" where
  "categoryData_of st pipelineData =
     sort_default
       (if categories (pipeline st) \<noteq> []
        then map Some (split_comma (categories (pipeline st)))
        else (let self = map Category pipelineData
              in filter_from (\<lambda>v i. indexOf self v = int i) self 0))"

definition categoryColorData_of :: "VisualSettings \<Rightarrow> Pipeline list \<Rightarrow> categoryColor list" where
  "categoryColorData_of st pipelineData =
     map_from (\<lambda>d i. \<lparr>category = d, color = colors_at i\<rparr>) (categoryData_of st pipelineData) 0"

section \<open>The document\<close>

text \<open>
  An element has a tag, attributes, the event types it listens to, the text it holds itself
  and its child elements. The document of the visual is the host's mount element with the
  three \<open>div\<close> elements the constructor appends to it, in this order: the header band, the
  content root (\<open>target\<close>) and the footer band. The mount element and what surrounds it are
  the host's and are taken to carry none of the classes the code selects by.
\<close>

datatype node =
  Elem (tag: string) (attrs: "(string \<times> string) list") (listeners: "string list")
       (textContent: string) (children: "node list")

fun set_attr :: "string \<Rightarrow> string \<Rightarrow> (string \<times> string) list \<Rightarrow> (string \<times> string) list" where
  "set_attr k v [] = [(k, v)]"
| "set_attr k v (kv # kvs) = (if fst kv = k then (k, v) # kvs else kv # set_attr k v kvs)"

text \<open>
  \<open>selection.attr(k, v)\<close>, \<open>selection.on(type, listener)\<close>, \<open>selection.append\<close>,
  \<open>selection.text(s)\<close> and \<open>selection.html(markup)\<close> on one element. The last two replace
  what the element holds; \<open>html\<close> is given the text and the elements the browser parses
  the markup into.
\<close>

definition attr :: "string \<Rightarrow> string \<Rightarrow> node \<Rightarrow> node" where
  "attr k v n = Elem (tag n) (set_attr k v (attrs n)) (listeners n) (textContent n) (children n)"

definition on :: "string \<Rightarrow> node \<Rightarrow> node" where
  "on ty n =
     Elem (tag n) (attrs n) (if ty \<in> set (listeners n) then listeners n else listeners n @ [ty])
       (textContent n) (children n)"

definition append_child :: "node \<Rightarrow> node \<Rightarrow> node" where
  "append_child n c = Elem (tag n) (attrs n) (listeners n) (textContent n) (children n @ [c])"

definition set_text :: "string \<Rightarrow> node \<Rightarrow> node" where
  "set_text s n = Elem (tag n) (attrs n) (listeners n) s []"

definition html :: "string \<times> node list \<Rightarrow> node \<Rightarrow> node" where
  "html parsed n = Elem (tag n) (attrs n) (listeners n) (fst parsed) (snd parsed)"

text \<open>\<open>selection.selectAll('*').remove()\<close>: every descendant element goes.\<close>

definition remove_descendants :: "node \<Rightarrow> node" where
  "remove_descendants n = Elem (tag n) (attrs n) (listeners n) (textContent n) []"

text \<open>
  The selector \<open>.cls\<close> matches an element whose class attribute, a list of names separated
  by white space, has the name \<open>cls\<close>.
\<close>

definition is_space :: "char \<Rightarrow> bool" where
  "is_space c = (c \<in> set [CHR '' '', CHR 0x09, CHR 0x0A, CHR 0x0C, CHR 0x0D])"

fun names_from :: "string \<Rightarrow> string \<Rightarrow> string list" where
  "names_from acc [] = (if acc = [] then [] else [acc])"
| "names_from acc (c # cs) =
     (if is_space c then (if acc = [] then names_from [] cs else acc # names_from [] cs)
      else names_from (acc @ [c]) cs)"

definition class_names :: "string \<Rightarrow> string list" where
  "class_names v = names_from [] v"

definition has_class :: "string \<Rightarrow> node \<Rightarrow> bool" where
  "has_class cls n =
     (case map_of (attrs n) ''class'' of
        None \<Rightarrow> False
      | Some v \<Rightarrow> cls \<in> set (class_names v))"

text \<open>
  The first element of a tree that matches \<open>.cls\<close>, in document order: \<open>select_first\<close>
  returns it, \<open>modify_first\<close> applies a change to it; both give \<open>None\<close> when no element of
  the tree matches.
\<close>

fun select_first :: "string \<Rightarrow> node \<Rightarrow> node option"
  and select_first_list :: "string \<Rightarrow> node list \<Rightarrow> node option" where
  "select_first cls (Elem t a l x ns) =
     (if has_class cls (Elem t a l x ns) then Some (Elem t a l x ns)
      else select_first_list cls ns)"
| "select_first_list cls [] = None"
| "select_first_list cls (n # ns) =
     (case select_first cls n of
        Some m \<Rightarrow> Some m
      | None \<Rightarrow> select_first_list cls ns)"

fun modify_first :: "string \<Rightarrow> (node \<Rightarrow> node) \<Rightarrow> node \<Rightarrow> node option"
  and modify_first_list :: "string \<Rightarrow> (node \<Rightarrow> node) \<Rightarrow> node list \<Rightarrow> node list option" where
  "modify_first cls f (Elem t a l x ns) =
     (if has_class cls (Elem t a l x ns) then Some (f (Elem t a l x ns))
      else (case modify_first_list cls f ns of
              None \<Rightarrow> None
            | Some ns' \<Rightarrow> Some (Elem t a l x ns')))"
| "modify_first_list cls f [] = None"
| "modify_first_list cls f (n # ns) =
     (case modify_first cls f n of
        Some n' \<Rightarrow> Some (n' # ns)
      | None \<Rightarrow> (case modify_first_list cls f ns of
                   None \<Rightarrow> None
                 | Some ns' \<Rightarrow> Some (n # ns')))"

section \<open>The visual and its host\<close>

record 'n IViewport =
  height :: 'n
  width :: 'n

record 'n VisualUpdateOptions =
  viewport :: "'n IViewport"
  dataViews :: "'n DataView list option"

datatype 'n event =
    RenderingStarted "'n VisualUpdateOptions"
  | RenderingFinished "'n VisualUpdateOptions"

text \<open>
  The state of a \<open>Visual\<close>: its three elements, the settings of the last update
  (\<open>undefined\<close> before the first one) and the notifications sent to the host's event service.
\<close>

record 'n Visual =
  header :: node
  target :: node
  footer :: node
  settings :: "VisualSettings option"
  events :: "'n event list"

text \<open>
  What the visual takes from its surroundings: the language's numbers, the browser's parser
  of markup (the text and the elements a markup gives as the content of an element), the
  height the browser measures for the legend (\<open>getBoundingClientRect().height\<close>), and the
  parser of the settings.

  Modelled from the spec: \<open>VisualSettings.parse\<close> is in \<^verbatim>\<open>settings.ts\<close>, which is not among the
  sources; the spec has it turn the host's configuration (which may be absent) into a
  settings record with a default for every field.
\<close>

record 'n host =
  numbers :: "'n numbers"
  parseSettings :: "'n DataView option \<Rightarrow> VisualSettings"
  parseHTML :: "string \<Rightarrow> string \<times> node list"
  measured_height :: "node \<Rightarrow> 'n"

definition constructor :: "'n Visual" where
  "constructor =
     \<lparr>header = Elem ''div'' [] [] [] [],
      target = Elem ''div'' [] [] [] [],
      footer = Elem ''div'' [] [] [] [],
      settings = None,
      events = []\<rparr>"

text \<open>
  \<open>d3.select('.cls')\<close> takes the first matching element of the whole document: of the
  header, else of the content root, else of the footer. \<open>modify_document\<close> applies a change
  to it and gives \<open>None\<close> when the selection is empty; through \<open>modify_selected\<close> nothing
  happens when it is empty.
\<close>

definition modify_document :: "string \<Rightarrow> (node \<Rightarrow> node) \<Rightarrow> 'n Visual \<Rightarrow> 'n Visual option" where
  "modify_document cls f this =
     (case modify_first cls f (header this) of
        Some h \<Rightarrow> Some (this\<lparr>header := h\<rparr>)
      | None \<Rightarrow>
          (case modify_first cls f (target this) of
             Some t \<Rightarrow> Some (this\<lparr>target := t\<rparr>)
           | None \<Rightarrow>
               (case modify_first cls f (footer this) of
                  Some b \<Rightarrow> Some (this\<lparr>footer := b\<rparr>)
                | None \<Rightarrow> None)))"

definition modify_selected :: "string \<Rightarrow> (node \<Rightarrow> node) \<Rightarrow> 'n Visual \<Rightarrow> 'n Visual" where
  "modify_selected cls f this =
     (case modify_document cls f this of None \<Rightarrow> this | Some this' \<Rightarrow> this')"

section \<open>The update\<close>

text \<open>
  A method changes the visual as it runs. Its outcome is the exception it raised, if any,
  with the state it left the visual in: the changes made before a throw stay.
\<close>

definition and_then ::
  "error option \<times> 's \<Rightarrow> ('s \<Rightarrow> error option \<times> 's) \<Rightarrow> error option \<times> 's" where
  "and_then r f = (case fst r of Some e \<Rightarrow> r | None \<Rightarrow> f (snd r))"

text \<open>
  The locals of \<open>update\<close>. \<open>options.dataViews[0]\<close> is \<open>undefined\<close> for an empty array; reading
  it from a missing array raises. The settings are parsed from the guarded expression
  \<^verbatim>\<open>options && options.dataViews && options.dataViews[0]\<close>, the records are converted from the
  unguarded \<^verbatim>\<open>options.dataViews[0]\<close> and cut by \<open>slice(0, 250)\<close>.
\<close>

definition first_of :: "'a list \<Rightarrow> 'a option" where
  "first_of xs = (case xs of [] \<Rightarrow> None | x # _ \<Rightarrow> Some x)"

definition guarded_dataView :: "'n VisualUpdateOptions \<Rightarrow> 'n DataView option" where
  "guarded_dataView options = (case dataViews options of None \<Rightarrow> None | Some dvs \<Rightarrow> first_of dvs)"

definition pipelineData_of :: "'n numbers \<Rightarrow> 'n VisualUpdateOptions \<Rightarrow> error + Pipeline list" where
  "pipelineData_of N options =
     (case dataViews options of
        None \<Rightarrow> Inl (TypeError ''0'')
      | Some dvs \<Rightarrow>
          (case CONVERTER N (first_of dvs) of
             Inl e \<Rightarrow> Inl e
           | Inr converted \<Rightarrow> Inr (take 250 converted)))"

definition phaseData_of :: "VisualSettings \<Rightarrow> string list" where
  "phaseData_of st = split_comma (phases (pipeline st))"

text \<open>The style given to the content root.\<close>

definition target_style :: "'n numbers \<Rightarrow> VisualSettings \<Rightarrow> 'n IViewport \<Rightarrow> string" where
  "target_style N st vp =
     (if layout (pipeline st) \<noteq> []
      then ''height:'' @ toString_number N (sub_number N (height vp) (literal N 110))
             @ ''px;width:'' @ toString_number N (width vp) @ ''px''
      else ''height:'' @ toString_number N (height vp)
             @ ''px;width:'' @ toString_number N (width vp) @ ''px'')"

text \<open>
  The methods read \<open>this.settings.pipeline\<close>, which raises while the settings are
  \<open>undefined\<close>.
\<close>

definition band_markup :: "VisualSettings \<Rightarrow> string" where
  "band_markup st =
     (if imgURL (pipeline st) \<noteq> [] then ''<img src=\"'' @ imgURL (pipeline st) @ ''\"/>'' else [])"

definition renderLayout :: "'n host \<Rightarrow> 'n Visual \<Rightarrow> error option \<times> 'n Visual" where
  "renderLayout h this =
     (case settings this of
        None \<Rightarrow> (Some (TypeError ''pipeline''), this)
      | Some st \<Rightarrow>
          if toLowerCase (layout (pipeline st)) = ''header''
          then (None, this\<lparr>header :=
                  html (parseHTML h (band_markup st)) (attr ''class'' ''visual-header'' (header this))\<rparr>)
          else if toLowerCase (layout (pipeline st)) = ''footer''
          then (None, this\<lparr>footer :=
                  html (parseHTML h (band_markup st)) (attr ''class'' ''visual-footer'' (footer this))\<rparr>)
          else (None, this))"

text \<open>
  A selection with data: groups of elements, each element with its datum. A callback that
  may raise runs over the elements group by group, in order; the elements before the one
  it raises at are changed, that one and the later ones are not.
\<close>

fun each_node ::
  "('d \<Rightarrow> node \<Rightarrow> error + node) \<Rightarrow> ('d \<times> node) list \<Rightarrow> error option \<times> ('d \<times> node) list" where
  "each_node f [] = (None, [])"
| "each_node f (dn # rest) =
     (case f (fst dn) (snd dn) of
        Inl e \<Rightarrow> (Some e, dn # rest)
      | Inr n' \<Rightarrow> (fst (each_node f rest), (fst dn, n') # snd (each_node f rest)))"

fun each_group ::
  "('d \<Rightarrow> node \<Rightarrow> error + node) \<Rightarrow> ('d \<times> node) list list
     \<Rightarrow> error option \<times> ('d \<times> node) list list" where
  "each_group f [] = (None, [])"
| "each_group f (g # gs) =
     (case fst (each_node f g) of
        Some e \<Rightarrow> (Some e, snd (each_node f g) # gs)
      | None \<Rightarrow> (fst (each_group f gs), snd (each_node f g) # snd (each_group f gs)))"

definition text_of :: "string option \<Rightarrow> string" where
  "text_of v = (case v of None \<Rightarrow> [] | Some s \<Rightarrow> if s \<noteq> [] then s else [])"

text \<open>
  \<^verbatim>\<open>let [moAcolor] = categoryColorData.filter(cd => cd.category === d.Category);\<close>
  \<^verbatim>\<open>return 'color:' + moAcolor.color + ';';\<close>
  With no match \<open>moAcolor\<close> is \<open>undefined\<close> and reading its colour raises; a colour
  that is itself \<open>undefined\<close> is concatenated as that word.
\<close>

definition color_style :: "categoryColor list \<Rightarrow> Pipeline \<Rightarrow> error + string" where
  "color_style ccd d =
     (case filter (\<lambda>cd. category cd = Category d) ccd of
        [] \<Rightarrow> Inl (TypeError ''color'')
      | moAcolor # _ \<Rightarrow>
          Inr (''color:'' @ (case color moAcolor of None \<Rightarrow> ''undefined'' | Some c \<Rightarrow> c) @ '';''))"

definition styled :: "categoryColor list \<Rightarrow> Pipeline \<Rightarrow> node \<Rightarrow> error + node" where
  "styled ccd d n = (case color_style ccd d of Inl e \<Rightarrow> Inl e | Inr s \<Rightarrow> Inr (attr ''style'' s n))"

definition phase_node :: "string \<Rightarrow> node" where
  "phase_node d =
     Elem ''div'' [(''class'', ''phase'')] [] []
       [Elem ''p'' [(''class'', ''phase-text'')] [] d [],
        Elem ''div'' [(''class'', ''phase-arrow'')] [] [] [],
        Elem ''div'' [(''class'', ''phase-rope'')] [] [] [],
        Elem ''div'' [(''class'', ''phase-rope-circle'')] [] [] []]"

text \<open>
  What \<open>renderPipelineReport\<close> appends under the content root, given the paragraph of the
  title and the company blocks of each phase group.
\<close>

definition report :: "node \<Rightarrow> string list \<Rightarrow> node list list \<Rightarrow> node" where
  "report title_p phaseData companies =
     Elem ''div'' [(''class'', ''main-content'')] [] []
       [Elem ''div'' [(''class'', ''header'')] [] [] [title_p],
        Elem ''div'' [(''class'', ''pipeline-wrap'')] [] []
          [Elem ''div'' [(''class'', ''pipeline-bar'')] [] [] (map phase_node phaseData),
           Elem ''div'' [(''class'', ''companies-wrap'')] [] []
             (map (\<lambda>cs. Elem ''div'' [(''class'', ''phase-companies'')] [] [] cs) companies)]]"

definition company :: "node list \<Rightarrow> node" where
  "company ps = Elem ''div'' [(''class'', ''company'')] [] [] ps"

text \<open>
  \<open>renderPipelineReport\<close>. The source appends the elements from the root down; the model
  builds the tree the content root has got when the method ends. The title is read from
  the settings when its paragraph is already there. The company blocks of all groups are
  appended first; then each gets its first paragraph, with class, then style (the colour
  lookup, which may raise part way), then text; then its second paragraph likewise.
\<close>

definition renderPipelineReport ::
  "'n Visual \<Rightarrow> string list \<Rightarrow> Pipeline list \<Rightarrow> categoryColor list \<Rightarrow> error option \<times> 'n Visual" where
  "renderPipelineReport this phaseData pipelineData categoryColorData =
     (case settings this of
        None \<Rightarrow>
          (Some (TypeError ''pipeline''),
           this\<lparr>target := append_child (target this)
             (Elem ''div'' [(''class'', ''main-content'')] [] []
                [Elem ''div'' [(''class'', ''header'')] [] [] [Elem ''p'' [] [] [] []]])\<rparr>)
      | Some st \<Rightarrow>
          (let appended = (\<lambda>companies.
                 this\<lparr>target := append_child (target this)
                   (report (Elem ''p'' [] [] (title (pipeline st)) []) phaseData companies)\<rparr>);
               groups = map (\<lambda>pd. filter (\<lambda>d. Phase d = Some pd) pipelineData) phaseData;
               names =
                 each_group (styled categoryColorData)
                   (map (map (\<lambda>d. (d, Elem ''p'' [(''class'', ''company-name'')] [] [] []))) groups)
           in case fst names of
                Some e \<Rightarrow> (Some e, appended (map (map (\<lambda>dp. company [snd dp])) (snd names)))
              | None \<Rightarrow>
                  (let named =
                         map (map (\<lambda>dp. (fst dp, set_text (text_of (Title (fst dp))) (snd dp))))
                           (snd names);
                       products =
                         each_group (styled categoryColorData)
                           (map (map (\<lambda>d. (d, Elem ''p'' [(''class'', ''product-name'')] [] [] [])))
                              groups)
                   in case fst products of
                        Some e \<Rightarrow>
                          (Some e,
                           appended (map2 (map2 (\<lambda>dp dq. company [snd dp, snd dq])) named
                                      (snd products)))
                      | None \<Rightarrow>
                          (None,
                           appended
                             (map2 (map2 (\<lambda>dp dq.
                                      company [snd dp, set_text (text_of (Name (fst dq))) (snd dq)]))
                                named (snd products))))))"

definition legend_node :: "categoryColor \<Rightarrow> node" where
  "legend_node d =
     Elem ''div'' [(''class'', ''legend'')] [] []
       [Elem ''p''
          [(''style'', ''color:'' @ (case color d of None \<Rightarrow> ''undefined'' | Some c \<Rightarrow> c) @ '';'')]
          [] (text_of (category d)) []]"

text \<open>
  \<open>renderLegend\<close>. The legend goes under the first element of class \<open>pipeline-wrap\<close> of the
  document; with no such element the legend selection is empty and measuring its node
  raises. The style then goes to the first element of class \<open>companies-wrap\<close> of the
  document.
\<close>

definition renderLegend ::
  "'n host \<Rightarrow> 'n Visual \<Rightarrow> categoryColor list \<Rightarrow> error option \<times> 'n Visual" where
  "renderLegend h this categoryColorData =
     (let legendWrap =
            Elem ''div'' [(''class'', ''legend-wrap'')] [] [] (map legend_node categoryColorData)
      in case modify_document ''pipeline-wrap'' (\<lambda>n. append_child n legendWrap) this of
           None \<Rightarrow> (Some (TypeError ''getBoundingClientRect''), this)
         | Some legended \<Rightarrow>
             (let calcHeight =
                    add_number (numbers h) (literal (numbers h) 260) (measured_height h legendWrap)
              in (None,
                  modify_selected ''companies-wrap''
                    (attr ''style''
                       (''height:calc(100% - '' @ toString_number (numbers h) calcHeight
                          @ ''px);''))
                    legended)))"

text \<open>
  \<open>handleScrollEvent\<close>: both elements are selected from the document before the first is
  changed; the change of the style of one does not change what the other selection finds.
\<close>

definition handleScrollEvent :: "'n Visual \<Rightarrow> 'n Visual" where
  "handleScrollEvent this =
     modify_selected ''companies-wrap'' (on ''scroll'')
       (modify_selected ''pipeline-bar'' (attr ''style'' ''margin-left:0px;'') this)"

text \<open>
  The method \<open>update\<close> as written, before its decorator.
\<close>

definition update_method ::
  "'n host \<Rightarrow> 'n Visual \<Rightarrow> 'n VisualUpdateOptions \<Rightarrow> error option \<times> 'n Visual" where
  "update_method h this options =
     (let st = parseSettings h (guarded_dataView options);
          started =
            this\<lparr>events := events this @ [RenderingStarted options], settings := Some st\<rparr>;
          sized =
            started\<lparr>target :=
              attr ''style'' (target_style (numbers h) st (viewport options))
                (attr ''class'' ''pipeline-container'' (remove_descendants (target started)))\<rparr>
      in case pipelineData_of (numbers h) options of
           Inl e \<Rightarrow> (Some e, sized)
         | Inr pipelineData \<Rightarrow>
             and_then
               (and_then
                  (and_then (renderLayout h sized)
                     (\<lambda>laid. renderPipelineReport laid (phaseData_of st) pipelineData
                               (categoryColorData_of st pipelineData)))
                  (\<lambda>reported. renderLegend h reported (categoryColorData_of st pipelineData)))
               (\<lambda>legended.
                  (None,
                   (handleScrollEvent legended)
                     \<lparr>events := events (handleScrollEvent legended) @ [RenderingFinished options]\<rparr>)))"

text \<open>
  The decorator \<open>logExceptions\<close>: the wrapped function is called in a \<open>try\<close> whose \<open>catch\<close>
  throws what it caught.
\<close>

definition logExceptions ::
  "('s \<Rightarrow> 'a \<Rightarrow> 'e option \<times> 'r) \<Rightarrow> 's \<Rightarrow> 'a \<Rightarrow> 'e option \<times> 'r" where
  "logExceptions descriptor_value this arguments =
     (case descriptor_value this arguments of
        (None, r) \<Rightarrow> (None, r)
      | (Some e, r) \<Rightarrow> (Some e, r))"

definition update ::
  "'n host \<Rightarrow> 'n Visual \<Rightarrow> 'n VisualUpdateOptions \<Rightarrow> error option \<times> 'n Visual" where
  "update h = logExceptions (update_method h)"

section \<open>Auxiliary definitions for the statements\<close>

text \<open>The record of a row, as a total function (the converter never raises on a table).\<close>

definition dp_of :: "'n numbers \<Rightarrow> indices \<Rightarrow> 'n cell list \<Rightarrow> Pipeline" where
  "dp_of N ix row =
     (case make_dp N ix row of
        Inr dp \<Rightarrow> dp
      | Inl e \<Rightarrow> \<lparr>Title = None, Phase = None, Category = None, Name = None\<rparr>)"

text \<open>The position of the last element of a list that satisfies a predicate.\<close>

fun last_pos :: "('a \<Rightarrow> bool) \<Rightarrow> 'a list \<Rightarrow> nat option" where
  "last_pos p [] = None"
| "last_pos p (x # xs) =
     (case last_pos p xs of
        Some k \<Rightarrow> Some (Suc k)
      | None \<Rightarrow> if p x then Some 0 else None)"

text \<open>
  The role a column counts for in the converter's loop: the first of Title, Phase, Category
  and Name among its role tags.
\<close>

definition column_role :: "DataViewMetadataColumn \<Rightarrow> string option" where
  "column_role c =
     (if hasOwnProperty (roles c) ''Title'' then Some ''Title''
      else if hasOwnProperty (roles c) ''Phase'' then Some ''Phase''
      else if hasOwnProperty (roles c) ''Category'' then Some ''Category''
      else if hasOwnProperty (roles c) ''Name'' then Some ''Name''
      else None)"

definition role_index :: "string \<Rightarrow> indices \<Rightarrow> int option" where
  "role_index r ix =
     (if r = ''Title'' then titleIndex ix
      else if r = ''Phase'' then phaseIndex ix
      else if r = ''Category'' then categoryIndex ix
      else nameIndex ix)"

definition role_field :: "string \<Rightarrow> Pipeline \<Rightarrow> string option" where
  "role_field r dp =
     (if r = ''Title'' then Title dp
      else if r = ''Phase'' then Phase dp
      else if r = ''Category'' then Category dp
      else Name dp)"

text \<open>
  The spec's reading of the column scan, in its words: the index of the first column whose
  role tags contain the role, and \<open>-1\<close> when no column does.
\<close>

fun first_column_with_role :: "string \<Rightarrow> DataViewMetadataColumn list \<Rightarrow> int" where
  "first_column_with_role r [] = - 1"
| "first_column_with_role r (c # cs) =
     (if hasOwnProperty (roles c) r then 0
      else (let k = first_column_with_role r cs in if k < 0 then - 1 else k + 1))"

text \<open>
  The shapes of the content root during an update: the root with its class and style set,
  and under it the main content with the phase bar, the companies area and what follows
  them in the pipeline wrapper.
\<close>

definition sized_root :: "node \<Rightarrow> string \<Rightarrow> node list \<Rightarrow> node" where
  "sized_root t0 sty kids =
     Elem (tag t0) (set_attr ''style'' sty (set_attr ''class'' ''pipeline-container'' (attrs t0)))
       (listeners t0) (textContent t0) kids"

definition content_tree ::
  "string \<Rightarrow> (string \<times> string) list \<Rightarrow> string list \<Rightarrow> (string \<times> string) list \<Rightarrow> string list
     \<Rightarrow> node list \<Rightarrow> node list \<Rightarrow> node" where
  "content_tree ttl bar_attrs phs wrap_attrs wrap_listeners groups rest =
     Elem ''div'' [(''class'', ''main-content'')] [] []
       [Elem ''div'' [(''class'', ''header'')] [] [] [Elem ''p'' [] [] ttl []],
        Elem ''div'' [(''class'', ''pipeline-wrap'')] [] []
          (Elem ''div'' ((''class'', ''pipeline-bar'') # bar_attrs) [] [] (map phase_node phs)
           # Elem ''div'' ((''class'', ''companies-wrap'') # wrap_attrs) wrap_listeners [] groups
           # rest)]"

definition report_shape :: "node \<Rightarrow> string \<Rightarrow> string \<Rightarrow> string list \<Rightarrow> node list \<Rightarrow> node \<Rightarrow> bool" where
  "report_shape t0 sty ttl phs groups t =
     (\<exists>ba wa wl rest. t = sized_root t0 sty [content_tree ttl ba phs wa wl groups rest])"

text \<open>
  The state in which \<open>update\<close> has notified the host, stored the settings, and cleared and
  sized the content root.
\<close>

definition sized_visual :: "'n host \<Rightarrow> 'n Visual \<Rightarrow> 'n VisualUpdateOptions \<Rightarrow> 'n Visual" where
  "sized_visual h this options =
     this\<lparr>events := events this @ [RenderingStarted options],
          settings := Some (parseSettings h (guarded_dataView options)),
          target :=
            sized_root (target this)
              (target_style (numbers h) (parseSettings h (guarded_dataView options))
                 (viewport options)) []\<rparr>"

text \<open>
  The style the colour lookup gives for a record: that of the first entry of the mapping
  with the record's category, when there is one.
\<close>

definition found_style :: "categoryColor list \<Rightarrow> Pipeline \<Rightarrow> string option" where
  "found_style ccd d =
     (case find (\<lambda>cd. category cd = Category d) ccd of
        None \<Rightarrow> None
      | Some cd \<Rightarrow> Some (''color:'' @ (case color cd of None \<Rightarrow> ''undefined'' | Some c \<Rightarrow> c) @ '';''))"

text \<open>
  The company block of a record: its Title and its Name (nothing for \<open>null\<close>), each in a
  paragraph with the given style.
\<close>

definition company_block :: "string \<Rightarrow> Pipeline \<Rightarrow> node" where
  "company_block sty d =
     Elem ''div'' [(''class'', ''company'')] [] []
       [Elem ''p'' [(''class'', ''company-name''), (''style'', sty)] []
          (case Title d of None \<Rightarrow> [] | Some t \<Rightarrow> t) [],
        Elem ''p'' [(''class'', ''product-name''), (''style'', sty)] []
          (case Name d of None \<Rightarrow> [] | Some n \<Rightarrow> n) []]"

text \<open>Reading the outcome of a conversion.\<close>

definition records_of :: "error + Pipeline list \<Rightarrow> Pipeline list" where
  "records_of r = (case r of Inl e \<Rightarrow> [] | Inr recs \<Rightarrow> recs)"

section \<open>Example inputs\<close>

text \<open>
  The numbers of the examples are integers of a few digits, which print in decimal.
\<close>

definition digit_char :: "nat \<Rightarrow> char" where
  "digit_char d = ''0123456789'' ! d"

fun decimal_nat :: "nat \<Rightarrow> string" where
  "decimal_nat n =
     (if n < 10 then [digit_char n] else decimal_nat (n div 10) @ [digit_char (n mod 10)])"

declare decimal_nat.simps [simp del]

definition decimal :: "int \<Rightarrow> string" where
  "decimal i = (if i < 0 then CHR ''-'' # decimal_nat (nat (- i)) else decimal_nat (nat i))"

definition small_integers :: "int numbers" where
  "small_integers =
     \<lparr>truthy_number = (\<lambda>n. n \<noteq> 0), toString_number = decimal, literal = (\<lambda>i. i),
      add_number = (\<lambda>a b. a + b), sub_number = (\<lambda>a b. a - b)\<rparr>"

definition role_column :: "string list \<Rightarrow> DataViewMetadataColumn" where
  "role_column rs = \<lparr>roles = map_of (map (\<lambda>r. (r, True)) rs)\<rparr>"

definition example_table :: "int DataViewTable" where
  "example_table =
     \<lparr>columns = [role_column [''Title''], role_column [''Phase''], role_column [''Category''],
                 role_column [''Name'']],
      rows = [[CString ''Acme'', CString ''Lead'', CString ''Sales'', CString ''WidgetA''],
              [CString ''Globex'', CString ''Closed'', CString ''Sales'', CString ''WidgetB'']]\<rparr>"

definition example_options :: "int VisualUpdateOptions" where
  "example_options =
     \<lparr>viewport = \<lparr>height = 500, width = 800\<rparr>,
      dataViews = Some [\<lparr>table = Some example_table\<rparr>]\<rparr>"

definition example_records :: "Pipeline list" where
  "example_records =
     [\<lparr>Title = Some ''Acme'', Phase = Some ''Lead'', Category = Some ''Sales'', Name = Some ''WidgetA''\<rparr>,
      \<lparr>Title = Some ''Globex'', Phase = Some ''Closed'', Category = Some ''Sales'', Name = Some ''WidgetB''\<rparr>]"

definition example_settings :: "string \<Rightarrow> string \<Rightarrow> string \<Rightarrow> VisualSettings" where
  "example_settings lay cats url =
     \<lparr>pipeline = \<lparr>title = ''Pipeline'', phases = ''Lead,Closed'', categories = cats,
                  imgURL = url, layout = lay\<rparr>\<rparr>"

text \<open>
  An image address that closes the attribute it is put in and brings an element of class
  \<open>pipeline-wrap\<close> with it, and what a browser parses the two band markups of the examples
  into.
\<close>

definition wrapping_url :: string where
  "wrapping_url = ''x\"/><div class=\"pipeline-wrap\"></div><img src=\"''"

definition example_parser :: "string \<Rightarrow> string \<times> node list" where
  "example_parser markup =
     (if markup = ''<img src=\"logo.png\"/>''
      then ([], [Elem ''img'' [(''src'', ''logo.png'')] [] [] []])
      else if markup = ''<img src=\"x\"/><div class=\"pipeline-wrap\"></div><img src=\"\"/>''
      then ([], [Elem ''img'' [(''src'', ''x'')] [] [] [],
                 Elem ''div'' [(''class'', ''pipeline-wrap'')] [] [] [],
                 Elem ''img'' [(''src'', [])] [] [] []])
      else ([], []))"

definition example_host :: "string \<Rightarrow> string \<Rightarrow> string \<Rightarrow> int host" where
  "example_host lay cats url =
     \<lparr>numbers = small_integers,
      parseSettings = (\<lambda>dv. example_settings lay cats url),
      parseHTML = example_parser,
      measured_height = (\<lambda>n. 20)\<rparr>"

definition duplicate_title_columns :: "DataViewMetadataColumn list" where
  "duplicate_title_columns = [role_column [''Title''], role_column [''Title'']]"

definition mixed_columns :: "DataViewMetadataColumn list" where
  "mixed_columns =
     [role_column [''Title''], role_column [''Name''], role_column [''Title'', ''Phase'']]"

definition large_table :: "int DataViewTable" where
  "large_table =
     \<lparr>columns = columns example_table,
      rows = replicate 251 [CString ''Acme'', CString ''Lead'', CString ''Sales'', CString ''WidgetA'']\<rparr>"

definition large_options :: "int VisualUpdateOptions" where
  "large_options =
     \<lparr>viewport = \<lparr>height = 500, width = 800\<rparr>,
      dataViews = Some [\<lparr>table = Some large_table\<rparr>]\<rparr>"

definition late_category_table :: "int DataViewTable" where
  "late_category_table =
     \<lparr>columns = columns example_table,
      rows = replicate 250 [CString ''Acme'', CString ''Lead'', CString ''Sales'', CString ''WidgetA'']
             @ [[CString ''Zed'', CString ''Lead'', CString ''Marketing'', CString ''WidgetZ'']]\<rparr>"

definition late_category_options :: "int VisualUpdateOptions" where
  "late_category_options =
     \<lparr>viewport = \<lparr>height = 500, width = 800\<rparr>,
      dataViews = Some [\<lparr>table = Some late_category_table\<rparr>]\<rparr>"

definition example_visual :: "int Visual" where
  "example_visual = constructor\<lparr>settings := Some (example_settings [] [] [])\<rparr>"

text \<open>
  The visual after a first update with the layout \<open>Header\<close> and an image, and after a first
  update with the layout \<open>header\<close> and the image address above.
\<close>

definition banded_visual :: "int Visual" where
  "banded_visual = snd (update (example_host ''Header'' [] ''logo.png'') constructor example_options)"

definition wrapped_visual :: "int Visual" where
  "wrapped_visual = snd (update (example_host ''header'' [] wrapping_url) constructor example_options)"

section \<open>Properties of the converter\<close>

lemma field_of_cell_total: "\<exists>f. field_of_cell N c = Inr f \<and> text_or_null N c f"
  by (cases c) (simp_all add: field_of_cell_def text_or_null_def)

lemma make_dp_total:
  "\<exists>dp. make_dp N ix row = Inr dp
     \<and> text_or_null N (row_at row (titleIndex ix)) (Title dp)
     \<and> text_or_null N (row_at row (phaseIndex ix)) (Phase dp)
     \<and> text_or_null N (row_at row (categoryIndex ix)) (Category dp)
     \<and> text_or_null N (row_at row (nameIndex ix)) (Name dp)"
proof -
  obtain t where t: "field_of_cell N (row_at row (titleIndex ix)) = Inr t"
    "text_or_null N (row_at row (titleIndex ix)) t"
    using field_of_cell_total by blast
  obtain p where p: "field_of_cell N (row_at row (phaseIndex ix)) = Inr p"
    "text_or_null N (row_at row (phaseIndex ix)) p"
    using field_of_cell_total by blast
  obtain c where c: "field_of_cell N (row_at row (categoryIndex ix)) = Inr c"
    "text_or_null N (row_at row (categoryIndex ix)) c"
    using field_of_cell_total by blast
  obtain n where n: "field_of_cell N (row_at row (nameIndex ix)) = Inr n"
    "text_or_null N (row_at row (nameIndex ix)) n"
    using field_of_cell_total by blast
  show ?thesis
    using t p c n by (simp add: make_dp_def)
qed

lemma make_dp_dp_of: "make_dp N ix row = Inr (dp_of N ix row)"
  using make_dp_total [of N ix row] by (auto simp: dp_of_def)

lemma row_loop_map: "row_loop N rs ix acc = Inr (acc @ map (dp_of N ix) rs)"
  by (induction rs arbitrary: acc) (simp_all add: make_dp_dp_of)

lemma CONVERTER_table:
  "table dv = Some t \<Longrightarrow>
   CONVERTER N (Some dv) = Inr (map (dp_of N (located_indices (columns t))) (rows t))"
  by (simp add: CONVERTER_def row_loop_map)

lemma dp_of_fields:
  "text_or_null N (row_at row (titleIndex ix)) (Title (dp_of N ix row))"
  "text_or_null N (row_at row (phaseIndex ix)) (Phase (dp_of N ix row))"
  "text_or_null N (row_at row (categoryIndex ix)) (Category (dp_of N ix row))"
  "text_or_null N (row_at row (nameIndex ix)) (Name (dp_of N ix row))"
  using make_dp_total [of N ix row] by (auto simp: make_dp_dp_of)

text \<open>
  Claim C1. For a data view with a table of N rows, the converter returns (without raising)
  exactly N records, record i coming from row i: each of its four fields is the \<open>toString\<close>
  of the cell of row i at that field's located column index when the cell is truthy, and
  \<open>null\<close> when the cell is falsy.
\<close>

theorem CONVERTER_records:
  assumes "table dv = Some t"
  shows "\<exists>recs. CONVERTER N (Some dv) = Inr recs
           \<and> length recs = length (rows t)
           \<and> (\<forall>i < length (rows t).
                text_or_null N (row_at (rows t ! i) (titleIndex (located_indices (columns t))))
                  (Title (recs ! i))
              \<and> text_or_null N (row_at (rows t ! i) (phaseIndex (located_indices (columns t))))
                  (Phase (recs ! i))
              \<and> text_or_null N (row_at (rows t ! i) (categoryIndex (located_indices (columns t))))
                  (Category (recs ! i))
              \<and> text_or_null N (row_at (rows t ! i) (nameIndex (located_indices (columns t))))
                  (Name (recs ! i)))"
  using assms by (simp add: CONVERTER_table dp_of_fields)

theorem CONVERTER_records_witness:
  "table \<lparr>table = Some example_table\<rparr> = Some example_table
   \<and> (\<exists>recs. CONVERTER small_integers (Some \<lparr>table = Some example_table\<rparr>) = Inr recs
         \<and> length recs = 2
         \<and> text_or_null small_integers (CString ''Acme'') (Title (recs ! 0)))"
  using CONVERTER_records [of "\<lparr>table = Some example_table\<rparr>" example_table small_integers]
  by (auto simp add: example_table_def located_indices_def initial_indices_def
      column_step_def hasOwnProperty_def role_column_def row_at_def)

section \<open>The column scan\<close>

lemma last_pos_None: "last_pos p xs = None \<longleftrightarrow> (\<forall>x\<in>set xs. \<not> p x)"
  by (induction xs) (auto split: option.splits)

lemma last_pos_Some:
  "last_pos p xs = Some k \<longleftrightarrow> k < length xs \<and> p (xs ! k) \<and> (\<forall>j. k < j \<and> j < length xs \<longrightarrow> \<not> p (xs ! j))"
proof (induction xs arbitrary: k)
  case Nil
  show ?case by simp
next
  case (Cons x xs)
  show ?case
  proof (cases "last_pos p xs")
    case None
    then have no: "\<forall>y\<in>set xs. \<not> p y" by (simp add: last_pos_None)
    show ?thesis
    proof (cases "p x")
      case True
      have "k = 0 \<longleftrightarrow> k < Suc (length xs) \<and> p ((x # xs) ! k) \<and> (\<forall>j. k < j \<and> j < Suc (length xs) \<longrightarrow> \<not> p ((x # xs) ! j))"
        using no True by (cases k) (auto simp: nth_Cons')
      then show ?thesis using None True by auto
    next
      case False
      have "\<not> (k < Suc (length xs) \<and> p ((x # xs) ! k))"
        using no False by (cases k) auto
      then show ?thesis using None False by auto
    qed
  next
    case (Some m)
    then have m: "m < length xs" "p (xs ! m)" "\<forall>j. m < j \<and> j < length xs \<longrightarrow> \<not> p (xs ! j)"
      using Cons.IH [of m] by auto
    show ?thesis
    proof
      assume "last_pos p (x # xs) = Some k"
      then have k: "k = Suc m" using Some by simp
      show "k < length (x # xs) \<and> p ((x # xs) ! k) \<and> (\<forall>j. k < j \<and> j < length (x # xs) \<longrightarrow> \<not> p ((x # xs) ! j))"
        using m k by (auto simp: nth_Cons split: nat.splits)
    next
      assume a: "k < length (x # xs) \<and> p ((x # xs) ! k) \<and> (\<forall>j. k < j \<and> j < length (x # xs) \<longrightarrow> \<not> p ((x # xs) ! j))"
      have "\<not> k < Suc m"
      proof
        assume "k < Suc m"
        then have "\<not> p ((x # xs) ! Suc m)" using a m by auto
        then show False using m by simp
      qed
      moreover have "\<not> Suc m < k"
      proof
        assume "Suc m < k"
        then obtain k' where k': "k = Suc k'" "m < k'" by (cases k) auto
        then have "p (xs ! k')" "k' < length xs" using a by auto
        then show False using m k' by auto
      qed
      ultimately have "k = Suc m" by simp
      then show "last_pos p (x # xs) = Some k" using Some by simp
    qed
  qed
qed

lemma column_role_iff:
  "column_role c = Some ''Title'' \<longleftrightarrow> hasOwnProperty (roles c) ''Title''"
  "column_role c = Some ''Phase'' \<longleftrightarrow>
     \<not> hasOwnProperty (roles c) ''Title'' \<and> hasOwnProperty (roles c) ''Phase''"
  "column_role c = Some ''Category'' \<longleftrightarrow>
     \<not> hasOwnProperty (roles c) ''Title'' \<and> \<not> hasOwnProperty (roles c) ''Phase''
     \<and> hasOwnProperty (roles c) ''Category''"
  "column_role c = Some ''Name'' \<longleftrightarrow>
     \<not> hasOwnProperty (roles c) ''Title'' \<and> \<not> hasOwnProperty (roles c) ''Phase''
     \<and> \<not> hasOwnProperty (roles c) ''Category'' \<and> hasOwnProperty (roles c) ''Name''"
  by (simp_all add: column_role_def)

lemma column_loop_title:
  "titleIndex (column_loop cols ti ix) =
     (case last_pos (\<lambda>c. column_role c = Some ''Title'') cols of
        None \<Rightarrow> titleIndex ix
      | Some k \<Rightarrow> Some (ti + int k))"
  by (induction cols arbitrary: ti ix)
    (simp_all add: column_role_iff column_step_def split: option.splits)

lemma column_loop_phase:
  "phaseIndex (column_loop cols ti ix) =
     (case last_pos (\<lambda>c. column_role c = Some ''Phase'') cols of
        None \<Rightarrow> phaseIndex ix
      | Some k \<Rightarrow> Some (ti + int k))"
  by (induction cols arbitrary: ti ix)
    (simp_all add: column_role_iff column_step_def split: option.splits)

lemma column_loop_category:
  "categoryIndex (column_loop cols ti ix) =
     (case last_pos (\<lambda>c. column_role c = Some ''Category'') cols of
        None \<Rightarrow> categoryIndex ix
      | Some k \<Rightarrow> Some (ti + int k))"
  by (induction cols arbitrary: ti ix)
    (simp_all add: column_role_iff column_step_def split: option.splits)

lemma column_loop_name:
  "nameIndex (column_loop cols ti ix) =
     (case last_pos (\<lambda>c. column_role c = Some ''Name'') cols of
        None \<Rightarrow> nameIndex ix
      | Some k \<Rightarrow> Some (ti + int k))"
  by (induction cols arbitrary: ti ix)
    (simp_all add: column_role_iff column_step_def split: option.splits)

lemma role_index_located:
  assumes "r \<in> {''Title'', ''Phase'', ''Category'', ''Name''}"
  shows "role_index r (located_indices cols) =
     (case last_pos (\<lambda>c. column_role c = Some r) cols of
        None \<Rightarrow> role_index r initial_indices
      | Some k \<Rightarrow> Some (int k))"
proof -
  consider "r = ''Title''" | "r = ''Phase''" | "r = ''Category''" | "r = ''Name''"
    using assms by auto
  then show ?thesis
  proof cases
    case 1
    show ?thesis
      unfolding 1
      by (simp add: role_index_def located_indices_def column_loop_title split: option.splits)
  next
    case 2
    show ?thesis
      unfolding 2
      by (simp add: role_index_def located_indices_def column_loop_phase split: option.splits)
  next
    case 3
    show ?thesis
      unfolding 3
      by (simp add: role_index_def located_indices_def column_loop_category split: option.splits)
  next
    case 4
    show ?thesis
      unfolding 4
      by (simp add: role_index_def located_indices_def column_loop_name split: option.splits)
  qed
qed

lemma role_index_initial:
  "r \<in> {''Title'', ''Phase'', ''Category''} \<Longrightarrow> role_index r initial_indices = Some (- 1)"
  "role_index ''Name'' initial_indices = None"
  by (auto simp: role_index_def initial_indices_def)

lemma row_at_unmatched: "row_at row (Some (- 1)) = CUndefined" "row_at row None = CUndefined"
  by (simp_all add: row_at_def)

lemma text_or_null_undefined: "text_or_null N CUndefined f \<Longrightarrow> f = None"
  by (cases f) (simp_all add: text_or_null_def)

lemma role_field_unmatched:
  assumes "r \<in> {''Title'', ''Phase'', ''Category'', ''Name''}"
    and "role_index r ix = Some (- 1) \<or> role_index r ix = None"
  shows "role_field r (dp_of N ix row) = None"
proof -
  have u: "row_at row (role_index r ix) = CUndefined"
    using assms(2) by (auto simp: row_at_unmatched)
  consider "r = ''Title''" | "r = ''Phase''" | "r = ''Category''" | "r = ''Name''"
    using assms(1) by auto
  then show ?thesis
  proof cases
    case 1
    then show ?thesis
      using u dp_of_fields(1) [of N row ix]
      by (simp add: role_index_def role_field_def text_or_null_undefined)
  next
    case 2
    then show ?thesis
      using u dp_of_fields(2) [of N row ix]
      by (simp add: role_index_def role_field_def text_or_null_undefined)
  next
    case 3
    then show ?thesis
      using u dp_of_fields(3) [of N row ix]
      by (simp add: role_index_def role_field_def text_or_null_undefined)
  next
    case 4
    then show ?thesis
      using u dp_of_fields(4) [of N row ix]
      by (simp add: role_index_def role_field_def text_or_null_undefined)
  qed
qed

text \<open>
  Two columns tagged Title: the scan leaves the index of the second one, while the first
  column whose role tags contain Title is column 0.
\<close>

theorem located_index_first_match_counterexample:
  "titleIndex (located_indices duplicate_title_columns) = Some 1
   \<and> first_column_with_role ''Title'' duplicate_title_columns = 0
   \<and> titleIndex (located_indices duplicate_title_columns)
       \<noteq> Some (first_column_with_role ''Title'' duplicate_title_columns)"
  by (simp add: duplicate_title_columns_def role_column_def located_indices_def
      initial_indices_def column_step_def hasOwnProperty_def)

lemma role_index_initial_cases:
  "role_index r initial_indices = Some (- 1) \<or> role_index r initial_indices = None"
  by (simp add: role_index_def initial_indices_def)

lemma role_index_last:
  assumes r: "r \<in> {''Title'', ''Phase'', ''Category'', ''Name''}"
    and k: "k < length cols"
    and hit: "column_role (cols ! k) = Some r"
    and later: "\<forall>j. k < j \<and> j < length cols \<longrightarrow> column_role (cols ! j) \<noteq> Some r"
  shows "role_index r (located_indices cols) = Some (int k)"
proof -
  have "last_pos (\<lambda>c. column_role c = Some r) cols = Some k"
    unfolding last_pos_Some by (intro conjI k hit later)
  then show ?thesis
    unfolding role_index_located [OF r] by simp
qed

lemma role_index_none:
  assumes r: "r \<in> {''Title'', ''Phase'', ''Category'', ''Name''}"
    and none: "\<forall>c \<in> set cols. column_role c \<noteq> Some r"
  shows "role_index r (located_indices cols) = role_index r initial_indices"
proof -
  have "last_pos (\<lambda>c. column_role c = Some r) cols = None"
    unfolding last_pos_None by (rule none)
  then show ?thesis
    unfolding role_index_located [OF r] by simp
qed

lemma three_roles: "r \<in> {''Title'', ''Phase'', ''Category''} \<Longrightarrow> r \<in> {''Title'', ''Phase'', ''Category'', ''Name''}"
  unfolding insert_iff by (elim disjE) simp_all

lemma CONVERTER_unmatched:
  assumes r: "r \<in> {''Title'', ''Phase'', ''Category'', ''Name''}"
    and none: "\<forall>c \<in> set cols. column_role c \<noteq> Some r"
    and conv: "CONVERTER N (Some \<lparr>table = Some \<lparr>columns = cols, rows = rws\<rparr>\<rparr>) = Inr recs"
    and dp: "dp \<in> set recs"
  shows "role_field r dp = None"
proof -
  have ix: "role_index r (located_indices cols) = Some (- 1)
      \<or> role_index r (located_indices cols) = None"
    unfolding role_index_none [OF r none] by (rule role_index_initial_cases)
  have "CONVERTER N (Some \<lparr>table = Some \<lparr>columns = cols, rows = rws\<rparr>\<rparr>)
      = Inr (map (dp_of N (located_indices cols)) rws)"
    by (simp add: CONVERTER_def row_loop_map)
  then have "recs = map (dp_of N (located_indices cols)) rws"
    using conv by simp
  then obtain row where "dp = dp_of N (located_indices cols) row"
    using dp by auto
  then show ?thesis
    using role_field_unmatched [OF r ix] by simp
qed

text \<open>
  Claim C4, as the code has it. A column counts for the first of Title, Phase, Category and
  Name among its role tags. For each of the four roles, when some column counts for it the
  located index is the index of the last such column; a role among Title, Phase and
  Category that no column counts for has index \<open>-1\<close>; and for any of the four roles that
  no column counts for, the field of every record the converter returns is \<open>null\<close>.
\<close>

theorem located_indices_last_match:
  "(\<forall>r \<in> {''Title'', ''Phase'', ''Category'', ''Name''}. \<forall>k < length cols.
       column_role (cols ! k) = Some r
       \<and> (\<forall>j. k < j \<and> j < length cols \<longrightarrow> column_role (cols ! j) \<noteq> Some r)
       \<longrightarrow> role_index r (located_indices cols) = Some (int k))
   \<and> (\<forall>r \<in> {''Title'', ''Phase'', ''Category''}.
         (\<forall>c \<in> set cols. column_role c \<noteq> Some r)
         \<longrightarrow> role_index r (located_indices cols) = Some (- 1))
   \<and> (\<forall>r \<in> {''Title'', ''Phase'', ''Category'', ''Name''}.
         (\<forall>c \<in> set cols. column_role c \<noteq> Some r)
         \<longrightarrow> (\<forall>rws recs.
                CONVERTER N (Some \<lparr>table = Some \<lparr>columns = cols, rows = rws\<rparr>\<rparr>) = Inr recs
                \<longrightarrow> (\<forall>dp \<in> set recs. role_field r dp = None)))"
proof (intro conjI ballI allI impI)
  fix r k
  assume r: "r \<in> {''Title'', ''Phase'', ''Category'', ''Name''}"
    and k: "k < length cols"
    and last: "column_role (cols ! k) = Some r
       \<and> (\<forall>j. k < j \<and> j < length cols \<longrightarrow> column_role (cols ! j) \<noteq> Some r)"
  show "role_index r (located_indices cols) = Some (int k)"
    by (rule role_index_last [OF r k conjunct1 [OF last] conjunct2 [OF last]])
next
  fix r
  assume r: "r \<in> {''Title'', ''Phase'', ''Category''}"
    and none: "\<forall>c \<in> set cols. column_role c \<noteq> Some r"
  show "role_index r (located_indices cols) = Some (- 1)"
    unfolding role_index_none [OF three_roles [OF r] none]
    by (rule role_index_initial(1) [OF r])
next
  fix r rws recs dp
  assume r: "r \<in> {''Title'', ''Phase'', ''Category'', ''Name''}"
    and none: "\<forall>c \<in> set cols. column_role c \<noteq> Some r"
    and conv: "CONVERTER N (Some \<lparr>table = Some \<lparr>columns = cols, rows = rws\<rparr>\<rparr>) = Inr recs"
    and dp: "dp \<in> set recs"
  show "role_field r dp = None"
    by (rule CONVERTER_unmatched [OF r none conv dp])
qed

lemma mixed_columns_roles:
  "column_role (mixed_columns ! 0) = Some ''Title''"
  "column_role (mixed_columns ! 1) = Some ''Name''"
  "column_role (mixed_columns ! 2) = Some ''Title''"
  "length mixed_columns = 3"
  by (simp_all add: mixed_columns_def role_column_def column_role_def hasOwnProperty_def)

theorem located_indices_last_match_witness:
  "column_role (mixed_columns ! 2) = Some ''Title''
   \<and> role_index ''Title'' (located_indices mixed_columns) = Some 2
   \<and> list_all (\<lambda>c. column_role c \<noteq> Some ''Phase'') mixed_columns
   \<and> role_index ''Phase'' (located_indices mixed_columns) = Some (- 1)
   \<and> (\<exists>recs. CONVERTER small_integers (Some \<lparr>table = Some \<lparr>columns = mixed_columns,
                   rows = [[CString ''Acme'', CString ''WidgetA'', CString ''Lead'']]\<rparr>\<rparr>) = Inr recs
         \<and> list_all (\<lambda>dp. role_field ''Phase'' dp = None) recs)"
proof -
  note t = located_indices_last_match [of mixed_columns small_integers]
  have no_phase: "\<forall>c \<in> set mixed_columns. column_role c \<noteq> Some ''Phase''"
    by (auto simp add: mixed_columns_def role_column_def column_role_def hasOwnProperty_def)
  have later: "\<forall>j. 2 < j \<and> j < length mixed_columns \<longrightarrow> column_role (mixed_columns ! j) \<noteq> Some ''Title''"
    unfolding mixed_columns_roles(4) by arith
  have all_title: "\<forall>k < length mixed_columns.
       column_role (mixed_columns ! k) = Some ''Title''
       \<and> (\<forall>j. k < j \<and> j < length mixed_columns \<longrightarrow> column_role (mixed_columns ! j) \<noteq> Some ''Title'')
       \<longrightarrow> role_index ''Title'' (located_indices mixed_columns) = Some (int k)"
    by (rule bspec [OF conjunct1 [OF t]]) simp
  have "role_index ''Title'' (located_indices mixed_columns) = Some (int 2)"
  proof (rule all_title [rule_format, of 2])
    show "2 < length mixed_columns"
      by (simp add: mixed_columns_roles(4))
    show "column_role (mixed_columns ! 2) = Some ''Title''
       \<and> (\<forall>j. 2 < j \<and> j < length mixed_columns \<longrightarrow> column_role (mixed_columns ! j) \<noteq> Some ''Title'')"
      by (rule conjI [OF mixed_columns_roles(3) later])
  qed
  then have title: "role_index ''Title'' (located_indices mixed_columns) = Some 2"
    by simp
  have "(\<forall>c \<in> set mixed_columns. column_role c \<noteq> Some ''Phase'')
         \<longrightarrow> role_index ''Phase'' (located_indices mixed_columns) = Some (- 1)"
    by (rule bspec [OF conjunct1 [OF conjunct2 [OF t]]]) simp
  then have phase: "role_index ''Phase'' (located_indices mixed_columns) = Some (- 1)"
    using no_phase by (rule mp)
  have "(\<forall>c \<in> set mixed_columns. column_role c \<noteq> Some ''Phase'')
         \<longrightarrow> (\<forall>rws recs.
                CONVERTER small_integers (Some \<lparr>table = Some \<lparr>columns = mixed_columns, rows = rws\<rparr>\<rparr>) = Inr recs
                \<longrightarrow> (\<forall>dp \<in> set recs. role_field ''Phase'' dp = None))"
    by (rule bspec [OF conjunct2 [OF conjunct2 [OF t]]]) simp
  then have nulls: "\<forall>rws recs.
                CONVERTER small_integers (Some \<lparr>table = Some \<lparr>columns = mixed_columns, rows = rws\<rparr>\<rparr>) = Inr recs
                \<longrightarrow> (\<forall>dp \<in> set recs. role_field ''Phase'' dp = None)"
    using no_phase by (rule mp)
  define recs where
    "recs = map (dp_of small_integers (located_indices mixed_columns))
              [[CString ''Acme'', CString ''WidgetA'', CString ''Lead'']]"
  have recs: "CONVERTER small_integers (Some \<lparr>table = Some \<lparr>columns = mixed_columns,
                   rows = [[CString ''Acme'', CString ''WidgetA'', CString ''Lead'']]\<rparr>\<rparr>) = Inr recs"
    by (simp add: CONVERTER_def row_loop_map recs_def)
  have all_null: "list_all (\<lambda>dp. role_field ''Phase'' dp = None) recs"
    unfolding list_all_iff by (rule ballI) (rule nulls [rule_format, OF recs])
  show ?thesis
    using title phase no_phase all_null recs mixed_columns_roles
    by (simp add: list_all_iff)
qed

section \<open>The decorator\<close>

text \<open>
  Claim C8. The decorator is transparent: whatever the wrapped function does on a receiver
  and its arguments, a returned result or a thrown error, the wrapper does the same with
  the same value; the decorated \<open>update\<close> is the method as written.
\<close>

theorem logExceptions_transparent:
  "logExceptions descriptor_value this arguments = descriptor_value this arguments
   \<and> update h v options = update_method h v options"
  by (simp add: update_def logExceptions_def split: prod.splits option.splits)

section \<open>The category colours of an update\<close>

lemma indexOf_range: "v \<in> set xs \<Longrightarrow> 0 \<le> indexOf xs v \<and> indexOf xs v < int (length xs)"
  by (induction xs) (auto simp: Let_def)

lemma indexOf_absent: "v \<notin> set xs \<Longrightarrow> indexOf xs v = - 1"
  by (induction xs) (auto simp: Let_def)

lemma indexOf_append:
  "indexOf (pre @ ys) v =
     (if v \<in> set pre then indexOf pre v
      else if v \<in> set ys then int (length pre) + indexOf ys v
      else - 1)"
proof (induction pre)
  case Nil
  show ?case by (simp add: indexOf_absent)
next
  case (Cons p pre)
  show ?case
    using indexOf_range [of v pre] indexOf_range [of v ys]
    by (auto simp: Cons.IH Let_def)
qed

lemma indexOf_here: "indexOf (pre @ x # xs) x = int (length pre) \<longleftrightarrow> x \<notin> set pre"
  using indexOf_range [of x pre] by (auto simp: indexOf_append)

lemma filter_from_first_occurrences:
  "set (filter_from (\<lambda>v i. indexOf (pre @ xs) v = int i) xs (length pre)) = set xs - set pre
   \<and> distinct (filter_from (\<lambda>v i. indexOf (pre @ xs) v = int i) xs (length pre))"
proof (induction xs arbitrary: pre)
  case Nil
  show ?case by simp
next
  case (Cons x xs)
  have ih: "set (filter_from (\<lambda>v i. indexOf (pre @ x # xs) v = int i) xs (Suc (length pre)))
        = set xs - set (pre @ [x])
      \<and> distinct (filter_from (\<lambda>v i. indexOf (pre @ x # xs) v = int i) xs (Suc (length pre)))"
    using Cons.IH [of "pre @ [x]"] by simp
  show ?case
    using ih by (auto simp: indexOf_here)
qed

lemma first_occurrences:
  "set (filter_from (\<lambda>v i. indexOf xs v = int i) xs 0) = set xs"
  "distinct (filter_from (\<lambda>v i. indexOf xs v = int i) xs 0)"
  using filter_from_first_occurrences [of "[]" xs] by simp_all

lemma length_map_from: "length (map_from f xs i) = length xs"
  by (induction xs arbitrary: i) simp_all

lemma nth_map_from: "j < length xs \<Longrightarrow> map_from f xs i ! j = f (xs ! j) (i + j)"
proof (induction xs arbitrary: i j)
  case Nil
  then show ?case by simp
next
  case (Cons x xs)
  then show ?case by (cases j) simp_all
qed

lemma map_category_map_from:
  "map category (map_from (\<lambda>d i. \<lparr>category = d, color = g i\<rparr>) xs i) = xs"
  by (induction xs arbitrary: i) simp_all

lemma categories_of_mapping: "map category (categoryColorData_of st recs) = categoryData_of st recs"
  by (simp add: categoryColorData_of_def map_category_map_from)

lemma colors_of_mapping:
  "i < length (categoryColorData_of st recs) \<Longrightarrow>
   color (categoryColorData_of st recs ! i) = colors_at i"
  by (simp add: categoryColorData_of_def length_map_from nth_map_from)

lemma length_colors: "length colors = 15"
  by (simp add: colors_def)

lemma pipelineData_of_InrD:
  assumes "pipelineData_of N options = Inr recs"
  shows "\<exists>dvs converted. dataViews options = Some dvs \<and> CONVERTER N (first_of dvs) = Inr converted
           \<and> recs = take 250 converted"
  using assms by (auto simp: pipelineData_of_def split: option.splits sum.splits)

text \<open>
  Claim C2, as the code has it. The mapping is built from the records \<open>update\<close> renders,
  which are the first 250 converted records. Its categories are in ascending order of
  their text (the list is sorted in both cases). When the categories setting is a
  non-empty string they are the pieces of the setting between its commas, rearranged;
  when it is empty they are the distinct Category values of the rendered records. The
  category at position \<open>i\<close> has the palette's colour at position \<open>i\<close> when \<open>i < 15\<close> and
  no colour beyond.
\<close>

theorem categoryColorData_of_sorted:
  assumes "pipelineData_of N options = Inr recs"
  shows "(\<exists>dvs converted. dataViews options = Some dvs \<and> CONVERTER N (first_of dvs) = Inr converted
            \<and> recs = take 250 converted)
     \<and> sorted (map sort_text (map category (categoryColorData_of st recs)))
     \<and> (categories (pipeline st) \<noteq> [] \<longrightarrow>
          mset (map category (categoryColorData_of st recs))
            = mset (map Some (split_comma (categories (pipeline st)))))
     \<and> (categories (pipeline st) = [] \<longrightarrow>
          distinct (map category (categoryColorData_of st recs))
          \<and> set (map category (categoryColorData_of st recs)) = Category ` set recs)
     \<and> (\<forall>i < length (categoryColorData_of st recs).
          color (categoryColorData_of st recs ! i)
            = (if i < 15 then Some (colors ! i) else None))"
proof (intro conjI impI allI)
  show "\<exists>dvs converted. dataViews options = Some dvs \<and> CONVERTER N (first_of dvs) = Inr converted
            \<and> recs = take 250 converted"
    by (rule pipelineData_of_InrD [OF assms])
  show "sorted (map sort_text (map category (categoryColorData_of st recs)))"
    by (simp add: categories_of_mapping categoryData_of_def sort_default_def)
  show "mset (map category (categoryColorData_of st recs))
            = mset (map Some (split_comma (categories (pipeline st))))"
    if "categories (pipeline st) \<noteq> []"
    using that by (simp add: categories_of_mapping categoryData_of_def sort_default_def)
  show "distinct (map category (categoryColorData_of st recs))"
    if "categories (pipeline st) = []"
    using that
    by (simp add: categories_of_mapping categoryData_of_def sort_default_def Let_def
        first_occurrences)
  show "set (map category (categoryColorData_of st recs)) = Category ` set recs"
    if "categories (pipeline st) = []"
    using that
    by (simp add: categories_of_mapping categoryData_of_def sort_default_def Let_def
        first_occurrences)
  show "color (categoryColorData_of st recs ! i) = (if i < 15 then Some (colors ! i) else None)"
    if "i < length (categoryColorData_of st recs)" for i
    using that by (simp add: colors_of_mapping colors_at_def length_colors)
qed

lemma example_converted: "CONVERTER small_integers (Some \<lparr>table = Some example_table\<rparr>) = Inr example_records"
  by (simp add: CONVERTER_def example_table_def located_indices_def initial_indices_def
      column_step_def hasOwnProperty_def role_column_def make_dp_def field_of_cell_def row_at_def
      example_records_def)

lemma example_pipelineData: "pipelineData_of small_integers example_options = Inr example_records"
  by (simp add: pipelineData_of_def example_options_def first_of_def example_converted)
    (simp add: example_records_def)

lemma example_categories_unset:
  "categoryColorData_of (example_settings lay [] url) example_records
     = [\<lparr>category = Some ''Sales'', color = Some ''#2ECC71''\<rparr>]"
  by (simp add: categoryColorData_of_def categoryData_of_def example_settings_def
      example_records_def sort_default_def colors_at_def colors_def)

lemma example_categories_configured:
  "categoryColorData_of (example_settings lay ''b,a'' url) recs
     = [\<lparr>category = Some ''a'', color = Some ''#2ECC71''\<rparr>,
        \<lparr>category = Some ''b'', color = Some ''#336EFF''\<rparr>]"
  by (simp add: categoryColorData_of_def categoryData_of_def example_settings_def
      sort_default_def colors_at_def colors_def sort_text_def)

lemma distinct_singleton: "distinct ys \<Longrightarrow> set ys = {a} \<Longrightarrow> ys = [a]"
proof (cases ys)
  case Nil
  assume "set ys = {a}"
  then show ?thesis using Nil by simp
next
  case (Cons y ys')
  assume d: "distinct ys" and s: "set ys = {a}"
  have y: "y = a" using s Cons by auto
  have "set ys' \<subseteq> {a}" using s Cons by auto
  moreover have "a \<notin> set ys'" using d Cons y by simp
  ultimately have "ys' = []" by (cases ys') auto
  then show ?thesis using Cons y by simp
qed

lemma first_occurrences_replicate:
  "0 < n \<Longrightarrow> filter_from (\<lambda>v i. indexOf (replicate n a) v = int i) (replicate n a) 0 = [a]"
  by (rule distinct_singleton) (simp_all add: first_occurrences)

lemma example_dp_of:
  "dp_of small_integers (located_indices (columns example_table))
     [CString ''Acme'', CString ''Lead'', CString ''Sales'', CString ''WidgetA'']
   = \<lparr>Title = Some ''Acme'', Phase = Some ''Lead'', Category = Some ''Sales'', Name = Some ''WidgetA''\<rparr>"
  "dp_of small_integers (located_indices (columns example_table))
     [CString ''Zed'', CString ''Lead'', CString ''Marketing'', CString ''WidgetZ'']
   = \<lparr>Title = Some ''Zed'', Phase = Some ''Lead'', Category = Some ''Marketing'', Name = Some ''WidgetZ''\<rparr>"
  by (simp_all add: dp_of_def example_table_def located_indices_def initial_indices_def
      column_step_def hasOwnProperty_def role_column_def make_dp_def field_of_cell_def row_at_def)

lemma late_category_converted:
  "CONVERTER small_integers (Some \<lparr>table = Some late_category_table\<rparr>) =
     Inr (replicate 250 \<lparr>Title = Some ''Acme'', Phase = Some ''Lead'', Category = Some ''Sales'',
                          Name = Some ''WidgetA''\<rparr>
          @ [\<lparr>Title = Some ''Zed'', Phase = Some ''Lead'', Category = Some ''Marketing'',
              Name = Some ''WidgetZ''\<rparr>])"
proof -
  have "table \<lparr>table = Some late_category_table\<rparr> = Some late_category_table"
    by simp
  from CONVERTER_table [OF this] show ?thesis
    by (simp add: late_category_table_def example_dp_of)
qed

lemma late_category_records:
  "pipelineData_of small_integers late_category_options =
     Inr (replicate 250 \<lparr>Title = Some ''Acme'', Phase = Some ''Lead'', Category = Some ''Sales'',
                          Name = Some ''WidgetA''\<rparr>)"
  by (simp add: pipelineData_of_def late_category_options_def first_of_def late_category_converted)

lemma late_category_mapping:
  "map category (categoryColorData_of (example_settings [] [] [])
      (records_of (pipelineData_of small_integers late_category_options))) = [Some ''Sales'']"
proof -
  have cats: "map Category (replicate 250 \<lparr>Title = Some ''Acme'', Phase = Some ''Lead'',
      Category = Some ''Sales'', Name = Some ''WidgetA''\<rparr>) = replicate 250 (Some ''Sales'')"
    by simp
  have "categoryData_of (example_settings [] [] [])
      (replicate 250 \<lparr>Title = Some ''Acme'', Phase = Some ''Lead'',
         Category = Some ''Sales'', Name = Some ''WidgetA''\<rparr>) = [Some ''Sales'']"
    unfolding categoryData_of_def Let_def cats
    by (simp add: example_settings_def first_occurrences_replicate sort_default_def)
  then show ?thesis
    unfolding late_category_records records_of_def categories_of_mapping by simp
qed

text \<open>
  The setting \<open>b,a\<close> gives the categories \<open>a\<close>, \<open>b\<close>, not the configured order; and with
  251 rows whose last one alone has the category Marketing, the mapping of the unset
  categories setting has Sales only.
\<close>

theorem categoryColorData_order_counterexample:
  "split_comma ''b,a'' = [''b'', ''a'']
   \<and> map category (categoryColorData_of (example_settings [] ''b,a'' []) example_records)
       = [Some ''a'', Some ''b'']
   \<and> Some ''Marketing''
       \<in> Category ` set (records_of (CONVERTER small_integers (Some \<lparr>table = Some late_category_table\<rparr>)))
   \<and> map category (categoryColorData_of (example_settings [] [] [])
        (records_of (pipelineData_of small_integers late_category_options))) = [Some ''Sales'']"
  unfolding late_category_mapping example_categories_configured
  by (simp add: late_category_converted records_of_def)

theorem categoryColorData_of_sorted_witness:
  "pipelineData_of small_integers example_options = Inr example_records
   \<and> categories (pipeline (example_settings [] ''b,a'' [])) \<noteq> []
   \<and> sorted (map sort_text (map category
        (categoryColorData_of (example_settings [] ''b,a'' []) example_records)))
   \<and> mset (map category (categoryColorData_of (example_settings [] ''b,a'' []) example_records))
       = mset [Some ''b'', Some ''a'']
   \<and> categories (pipeline (example_settings [] [] [])) = []
   \<and> set (map category (categoryColorData_of (example_settings [] [] []) example_records))
       = Category ` set example_records
   \<and> color (categoryColorData_of (example_settings [] [] []) example_records ! 0) = Some ''#2ECC71''"
proof -
  note a = categoryColorData_of_sorted [OF example_pipelineData, of "example_settings [] ''b,a'' []"]
  note b = categoryColorData_of_sorted [OF example_pipelineData, of "example_settings [] [] []"]
  have ca: "categories (pipeline (example_settings [] ''b,a'' [])) \<noteq> []"
    by (simp add: example_settings_def)
  have cb: "categories (pipeline (example_settings [] [] [])) = []"
    by (simp add: example_settings_def)
  have sp: "split_comma (categories (pipeline (example_settings [] ''b,a'' []))) = [''b'', ''a'']"
    by (simp add: example_settings_def)
  have s: "sorted (map sort_text (map category
        (categoryColorData_of (example_settings [] ''b,a'' []) example_records)))"
    using a by (elim conjE)
  have m: "mset (map category (categoryColorData_of (example_settings [] ''b,a'' []) example_records))
       = mset [Some ''b'', Some ''a'']"
    using a ca sp by simp
  have st: "set (map category (categoryColorData_of (example_settings [] [] []) example_records))
       = Category ` set example_records"
    using b cb by simp
  have "0 < length (categoryColorData_of (example_settings [] [] []) example_records)"
    by (simp add: example_categories_unset)
  then have c: "color (categoryColorData_of (example_settings [] [] []) example_records ! 0)
      = Some ''#2ECC71''"
    using b by (simp add: colors_def)
  show ?thesis
    by (intro conjI example_pipelineData ca s m cb st c)
qed

section \<open>The colour lookup\<close>

lemma each_node_ok:
  "(\<forall>dn \<in> set xs. f (fst dn) (snd dn) = Inr (g dn)) \<Longrightarrow>
   each_node f xs = (None, map (\<lambda>dn. (fst dn, g dn)) xs)"
  by (induction xs) simp_all

lemma each_node_returns:
  "fst (each_node f xs) = None \<longleftrightarrow> (\<forall>dn \<in> set xs. \<exists>n'. f (fst dn) (snd dn) = Inr n')"
  by (induction xs) (auto split: sum.splits)

lemma each_node_error:
  "fst (each_node f xs) = Some e \<Longrightarrow> \<exists>dn \<in> set xs. f (fst dn) (snd dn) = Inl e"
  by (induction xs) (auto split: sum.splits)

lemma each_group_ok:
  "(\<forall>g' \<in> set gs. \<forall>dn \<in> set g'. f (fst dn) (snd dn) = Inr (g dn)) \<Longrightarrow>
   each_group f gs = (None, map (map (\<lambda>dn. (fst dn, g dn))) gs)"
proof (induction gs)
  case Nil
  show ?case by simp
next
  case (Cons a gs)
  have a: "each_node f a = (None, map (\<lambda>dn. (fst dn, g dn)) a)"
    using Cons.prems by (simp add: each_node_ok)
  have "each_group f gs = (None, map (map (\<lambda>dn. (fst dn, g dn))) gs)"
    using Cons by simp
  then show ?case
    by (simp add: a)
qed

lemma each_group_returns:
  "fst (each_group f gs) = None
   \<longleftrightarrow> (\<forall>g' \<in> set gs. \<forall>dn \<in> set g'. \<exists>n'. f (fst dn) (snd dn) = Inr n')"
proof (induction gs)
  case Nil
  show ?case by simp
next
  case (Cons g gs)
  show ?case
    using Cons.IH each_node_returns [of f g]
    by (cases "fst (each_node f g)") auto
qed

lemma each_group_error:
  "fst (each_group f gs) = Some e \<Longrightarrow>
   \<exists>g' \<in> set gs. \<exists>dn \<in> set g'. f (fst dn) (snd dn) = Inl e"
proof (induction gs)
  case Nil
  then show ?case by simp
next
  case (Cons g gs)
  show ?case
  proof (cases "fst (each_node f g)")
    case None
    then have "fst (each_group f gs) = Some e"
      using Cons.prems by simp
    then show ?thesis
      using Cons.IH by auto
  next
    case (Some e')
    then have "e' = e"
      using Cons.prems by simp
    then show ?thesis
      using each_node_error [of f g e] Some by auto
  qed
qed

lemma filter_find: "find p xs = Some x \<Longrightarrow> \<exists>rest. filter p xs = x # rest"
  by (induction xs) (auto split: if_splits)

lemma find_None_filter: "find p xs = None \<longleftrightarrow> filter p xs = []"
  by (induction xs) auto

lemma color_style_found:
  "color_style ccd d = (case found_style ccd d of None \<Rightarrow> Inl (TypeError ''color'') | Some s \<Rightarrow> Inr s)"
proof (cases "find (\<lambda>cd. category cd = Category d) ccd")
  case None
  then have "filter (\<lambda>cd. category cd = Category d) ccd = []"
    by (simp add: find_None_filter)
  then show ?thesis
    using None by (simp add: color_style_def found_style_def)
next
  case (Some cd)
  from filter_find [OF Some]
  obtain rest where "filter (\<lambda>cd. category cd = Category d) ccd = cd # rest" ..
  then show ?thesis
    using Some by (simp add: color_style_def found_style_def)
qed

lemma found_style_None: "found_style ccd d = None \<longleftrightarrow> \<not> (\<exists>cd \<in> set ccd. category cd = Category d)"
proof -
  have "found_style ccd d = None \<longleftrightarrow> find (\<lambda>cd. category cd = Category d) ccd = None"
    by (simp add: found_style_def split: option.splits)
  then show ?thesis
    by (auto simp: find_None_iff)
qed

lemma styled_found:
  "styled ccd d n =
     (case found_style ccd d of
        None \<Rightarrow> Inl (TypeError ''color'')
      | Some s \<Rightarrow> Inr (attr ''style'' s n))"
  by (simp add: styled_def color_style_found split: option.splits)

lemma styled_returns: "(\<exists>n'. styled ccd d n = Inr n') \<longleftrightarrow> found_style ccd d \<noteq> None"
  by (cases "found_style ccd d") (simp_all add: styled_found)

lemma styled_error: "styled ccd d n = Inl e \<Longrightarrow> e = TypeError ''color''"
  by (cases "found_style ccd d") (simp_all add: styled_found)

text \<open>The paragraphs of all groups get their style exactly when every lookup has a result.\<close>

lemma names_return:
  "fst (each_group (styled ccd)
          (map (map (\<lambda>d. (d, p)))
             (map (\<lambda>pd. filter (\<lambda>d. Phase d = Some pd) recs) phs))) = None
   \<longleftrightarrow> (\<forall>pd \<in> set phs. \<forall>d \<in> set recs. Phase d = Some pd \<longrightarrow> found_style ccd d \<noteq> None)"
  unfolding each_group_returns by (auto simp: styled_returns)

lemma names_error:
  assumes "fst (each_group (styled ccd) gs) = Some e"
  shows "e = TypeError ''color''"
proof -
  from each_group_error [OF assms] obtain g dn where "styled ccd (fst dn) (snd dn) = Inl e"
    by blast
  then show ?thesis by (rule styled_error)
qed

lemma names_styled:
  assumes "\<forall>pd \<in> set phs. \<forall>d \<in> set recs. Phase d = Some pd \<longrightarrow> found_style ccd d \<noteq> None"
  shows "each_group (styled ccd)
          (map (map (\<lambda>d. (d, p)))
             (map (\<lambda>pd. filter (\<lambda>d. Phase d = Some pd) recs) phs))
     = (None,
        map (map (\<lambda>d. (d, attr ''style'' (the (found_style ccd d)) p)))
          (map (\<lambda>pd. filter (\<lambda>d. Phase d = Some pd) recs) phs))"
proof -
  have "each_group (styled ccd)
          (map (map (\<lambda>d. (d, p)))
             (map (\<lambda>pd. filter (\<lambda>d. Phase d = Some pd) recs) phs))
     = (None,
        map (map (\<lambda>dn. (fst dn, attr ''style'' (the (found_style ccd (fst dn))) (snd dn))))
          (map (map (\<lambda>d. (d, p)))
             (map (\<lambda>pd. filter (\<lambda>d. Phase d = Some pd) recs) phs)))"
  proof (rule each_group_ok, intro ballI)
    fix g' dn
    assume g': "g' \<in> set (map (map (\<lambda>d. (d, p)))
             (map (\<lambda>pd. filter (\<lambda>d. Phase d = Some pd) recs) phs))"
      and dn: "dn \<in> set g'"
    then obtain pd where pd: "pd \<in> set phs" "fst dn \<in> set recs" "Phase (fst dn) = Some pd"
      by auto
    then have "found_style ccd (fst dn) \<noteq> None"
      using assms by blast
    then show "styled ccd (fst dn) (snd dn)
        = Inr (attr ''style'' (the (found_style ccd (fst dn))) (snd dn))"
      by (auto simp: styled_found)
  qed
  then show ?thesis
    by (simp add: comp_def)
qed

lemma map2_same:
  "map2 F (map A g) (map B g) = map (\<lambda>d. F (A d) (B d)) g"
  by (induction g) simp_all

lemma map2_map2_same:
  "map2 (map2 F) (map (\<lambda>x. map A (G x)) xs) (map (\<lambda>x. map B (G x)) xs)
     = map (\<lambda>x. map (\<lambda>d. F (A d) (B d)) (G x)) xs"
  by (induction xs) (simp_all add: map2_same)

lemma text_of_case: "text_of v = (case v of None \<Rightarrow> [] | Some s \<Rightarrow> s)"
  by (simp add: text_of_def split: option.splits)

lemma renderPipelineReport_returns:
  assumes "settings this = Some st"
    and "\<forall>pd \<in> set phs. \<forall>d \<in> set recs. Phase d = Some pd \<longrightarrow> found_style ccd d \<noteq> None"
  shows "renderPipelineReport this phs recs ccd =
     (None,
      this\<lparr>target := append_child (target this)
        (report (Elem ''p'' [] [] (title (pipeline st)) []) phs
           (map (\<lambda>pd. map (\<lambda>d. company_block (the (found_style ccd d)) d)
                       (filter (\<lambda>d. Phase d = Some pd) recs)) phs))\<rparr>)"
  unfolding renderPipelineReport_def Let_def assms(1) option.case names_styled [OF assms(2)]
  by (simp add: map2_map2_same company_def company_block_def set_text_def attr_def
      text_of_case comp_def)

lemma renderPipelineReport_raises:
  assumes "settings this = Some st"
    and "\<not> (\<forall>pd \<in> set phs. \<forall>d \<in> set recs. Phase d = Some pd \<longrightarrow> found_style ccd d \<noteq> None)"
  shows "fst (renderPipelineReport this phs recs ccd) = Some (TypeError ''color'')"
proof -
  let ?names = "each_group (styled ccd)
          (map (map (\<lambda>d. (d, Elem ''p'' [(''class'', ''company-name'')] [] [] [])))
             (map (\<lambda>pd. filter (\<lambda>d. Phase d = Some pd) recs) phs))"
  have "fst ?names \<noteq> None"
    using assms(2) unfolding names_return by simp
  then obtain e where e: "fst ?names = Some e"
    by auto
  then have "e = TypeError ''color''"
    by (rule names_error)
  then show ?thesis
    unfolding renderPipelineReport_def Let_def assms(1) option.case e
    by simp
qed

text \<open>
  Claim C7. In \<open>renderPipelineReport\<close> (with the settings present) the rendered records
  are those whose Phase is one of the phase labels. When the Category of each of them
  occurs in the mapping, the method returns; when the method returns, each of them has its
  Category in the mapping; the only error the method raises is the \<open>TypeError\<close> of reading
  the colour of a lookup without result; and the lookup of a record gives a style exactly
  when the record's Category occurs in the mapping.
\<close>

theorem renderPipelineReport_lookup:
  assumes "settings this = Some st"
  shows "((\<forall>pd \<in> set phaseData. \<forall>d \<in> set pipelineData. Phase d = Some pd \<longrightarrow>
             (\<exists>cd \<in> set ccd. category cd = Category d))
          \<longrightarrow> fst (renderPipelineReport this phaseData pipelineData ccd) = None)
     \<and> (fst (renderPipelineReport this phaseData pipelineData ccd) = None
          \<longrightarrow> (\<forall>pd \<in> set phaseData. \<forall>d \<in> set pipelineData. Phase d = Some pd \<longrightarrow>
                 (\<exists>cd \<in> set ccd. category cd = Category d)))
     \<and> (\<forall>e. fst (renderPipelineReport this phaseData pipelineData ccd) = Some e
             \<longrightarrow> e = TypeError ''color'')
     \<and> (\<forall>d. (\<exists>s. color_style ccd d = Inr s) \<longleftrightarrow> (\<exists>cd \<in> set ccd. category cd = Category d))"
proof -
  let ?r = "renderPipelineReport this phaseData pipelineData ccd"
  let ?pre = "\<forall>pd \<in> set phaseData. \<forall>d \<in> set pipelineData. Phase d = Some pd \<longrightarrow>
             (\<exists>cd \<in> set ccd. category cd = Category d)"
  let ?found = "\<forall>pd \<in> set phaseData. \<forall>d \<in> set pipelineData. Phase d = Some pd \<longrightarrow>
             found_style ccd d \<noteq> None"
  have pre: "?pre \<longleftrightarrow> ?found"
    by (simp add: found_style_None)
  have a: "?pre \<longrightarrow> fst ?r = None"
  proof
    assume ?pre
    then have ?found using pre by simp
    from renderPipelineReport_returns [OF assms this] show "fst ?r = None"
      by simp
  qed
  have b: "fst ?r = None \<longrightarrow> ?pre"
  proof
    assume r: "fst ?r = None"
    have ?found
    proof (rule ccontr)
      assume "\<not> ?found"
      from renderPipelineReport_raises [OF assms this] show False
        using r by simp
    qed
    then show ?pre using pre by simp
  qed
  have c: "\<forall>e. fst ?r = Some e \<longrightarrow> e = TypeError ''color''"
  proof (intro allI impI)
    fix e
    assume e: "fst ?r = Some e"
    have "\<not> ?found"
    proof
      assume ?found
      from renderPipelineReport_returns [OF assms this] show False
        using e by simp
    qed
    from renderPipelineReport_raises [OF assms this] show "e = TypeError ''color''"
      using e by simp
  qed
  have d: "\<forall>d. (\<exists>s. color_style ccd d = Inr s) \<longleftrightarrow> (\<exists>cd \<in> set ccd. category cd = Category d)"
  proof
    fix d
    show "(\<exists>s. color_style ccd d = Inr s) \<longleftrightarrow> (\<exists>cd \<in> set ccd. category cd = Category d)"
      using found_style_None [of ccd d]
      by (cases "found_style ccd d") (simp_all add: color_style_found)
  qed
  show ?thesis
    using a b c d by (intro conjI)
qed

theorem renderPipelineReport_lookup_witness:
  "settings example_visual = Some (example_settings [] [] [])
   \<and> fst (renderPipelineReport example_visual [''Lead'', ''Closed''] example_records
          [\<lparr>category = Some ''Sales'', color = Some ''#2ECC71''\<rparr>]) = None
   \<and> fst (renderPipelineReport example_visual [''Lead'', ''Closed''] example_records [])
       = Some (TypeError ''color'')"
proof -
  have s: "settings example_visual = Some (example_settings [] [] [])"
    by (simp add: example_visual_def)
  note yes = renderPipelineReport_lookup [OF s, of "[''Lead'', ''Closed'']" example_records
      "[\<lparr>category = Some ''Sales'', color = Some ''#2ECC71''\<rparr>]"]
  note no = renderPipelineReport_lookup [OF s, of "[''Lead'', ''Closed'']" example_records "[]"]
  have pre: "\<forall>pd \<in> set [''Lead'', ''Closed'']. \<forall>d \<in> set example_records. Phase d = Some pd \<longrightarrow>
       (\<exists>cd \<in> set [\<lparr>category = Some ''Sales'', color = Some ''#2ECC71''\<rparr>]. category cd = Category d)"
    by (simp add: example_records_def)
  have a: "fst (renderPipelineReport example_visual [''Lead'', ''Closed''] example_records
          [\<lparr>category = Some ''Sales'', color = Some ''#2ECC71''\<rparr>]) = None"
    using conjunct1 [OF yes] pre by (rule mp)
  have npre: "\<not> (\<forall>pd \<in> set [''Lead'', ''Closed'']. \<forall>d \<in> set example_records. Phase d = Some pd \<longrightarrow>
       (\<exists>cd \<in> set ([] :: categoryColor list). category cd = Category d))"
    by (simp add: example_records_def)
  have fails: "fst (renderPipelineReport example_visual [''Lead'', ''Closed'']
       example_records []) \<noteq> None"
  proof
    assume ex: "fst (renderPipelineReport example_visual [''Lead'', ''Closed'']
       example_records []) = None"
    from conjunct1 [OF conjunct2 [OF no]] ex
    have "\<forall>pd \<in> set [''Lead'', ''Closed'']. \<forall>d \<in> set example_records. Phase d = Some pd \<longrightarrow>
       (\<exists>cd \<in> set ([] :: categoryColor list). category cd = Category d)"
      by (rule mp)
    with npre show False by (rule notE)
  qed
  then obtain e where e: "fst (renderPipelineReport example_visual [''Lead'', ''Closed'']
       example_records []) = Some e"
    by auto
  have "e = TypeError ''color''"
    using conjunct1 [OF conjunct2 [OF conjunct2 [OF no]]] e by blast
  then have b: "fst (renderPipelineReport example_visual [''Lead'', ''Closed''] example_records [])
       = Some (TypeError ''color'')"
    using e by simp
  show ?thesis
    by (intro conjI s a b)
qed

section \<open>Selections in the document\<close>

lemma map_of_set_attr_same: "map_of (set_attr k v kvs) k = Some v"
  by (induction kvs) auto

lemma map_of_set_attr_other: "k' \<noteq> k \<Longrightarrow> map_of (set_attr k v kvs) k' = map_of kvs k'"
  by (induction kvs) auto

text \<open>The class attributes the code writes are single names.\<close>

lemma class_names_written:
  "class_names ''pipeline-container'' = [''pipeline-container'']"
  "class_names ''main-content'' = [''main-content'']"
  "class_names ''header'' = [''header'']"
  "class_names ''pipeline-wrap'' = [''pipeline-wrap'']"
  "class_names ''pipeline-bar'' = [''pipeline-bar'']"
  "class_names ''companies-wrap'' = [''companies-wrap'']"
  "class_names ''phase'' = [''phase'']"
  "class_names ''phase-text'' = [''phase-text'']"
  "class_names ''phase-arrow'' = [''phase-arrow'']"
  "class_names ''phase-rope'' = [''phase-rope'']"
  "class_names ''phase-rope-circle'' = [''phase-rope-circle'']"
  "class_names ''legend-wrap'' = [''legend-wrap'']"
  "class_names ''visual-header'' = [''visual-header'']"
  "class_names ''visual-footer'' = [''visual-footer'']"
  by (simp_all add: class_names_def is_space_def)

lemma modify_first_None:
  "modify_first cls f n = None \<longleftrightarrow> select_first cls n = None"
  "modify_first_list cls f ns = None \<longleftrightarrow> select_first_list cls ns = None"
  by (induction cls n and cls ns rule: select_first_select_first_list.induct)
    (auto split: option.splits)

lemma modify_first_list_phases:
  "cls \<notin> {''phase'', ''phase-text'', ''phase-arrow'', ''phase-rope'', ''phase-rope-circle''} \<Longrightarrow>
   modify_first_list cls f (map phase_node ps) = None"
  by (induction ps) (auto simp add: phase_node_def has_class_def class_names_written)

lemma select_first_list_phases:
  "cls \<notin> {''phase'', ''phase-text'', ''phase-arrow'', ''phase-rope'', ''phase-rope-circle''} \<Longrightarrow>
   select_first_list cls (map phase_node ps) = None"
  by (induction ps) (auto simp add: phase_node_def has_class_def class_names_written)

lemma has_class_sized_root: "has_class cls (sized_root t0 sty kids) \<longleftrightarrow> cls = ''pipeline-container''"
  by (auto simp add: sized_root_def has_class_def map_of_set_attr_same map_of_set_attr_other
      class_names_written)

lemma modify_first_sized_root:
  "cls \<noteq> ''pipeline-container'' \<Longrightarrow>
   modify_first cls f (sized_root t0 sty [c]) = map_option (\<lambda>c'. sized_root t0 sty [c']) (modify_first cls f c)"
  using has_class_sized_root [of cls t0 sty "[c]"]
  by (simp add: sized_root_def split: option.splits)

lemma select_first_sized_root:
  "cls \<noteq> ''pipeline-container'' \<Longrightarrow>
   select_first cls (sized_root t0 sty [c]) = select_first cls c"
  using has_class_sized_root [of cls t0 sty "[c]"]
  by (simp add: sized_root_def split: option.splits)

lemma modify_wrap_content:
  "modify_first ''pipeline-wrap'' (\<lambda>n. append_child n c) (content_tree ttl b phs w wl gs rest)
   = Some (content_tree ttl b phs w wl gs (rest @ [c]))"
  by (simp add: content_tree_def has_class_def append_child_def class_names_written)

lemma modify_bar_content:
  "modify_first ''pipeline-bar'' (attr ''style'' s) (content_tree ttl b phs w wl gs rest)
   = Some (content_tree ttl (set_attr ''style'' s b) phs w wl gs rest)"
  by (simp add: content_tree_def has_class_def attr_def class_names_written)

lemma modify_companies_style_content:
  "modify_first ''companies-wrap'' (attr ''style'' s) (content_tree ttl b phs w wl gs rest)
   = Some (content_tree ttl b phs (set_attr ''style'' s w) wl gs rest)"
  by (simp add: content_tree_def has_class_def attr_def modify_first_list_phases
      class_names_written)

lemma modify_companies_on_content:
  "modify_first ''companies-wrap'' (on ''scroll'') (content_tree ttl b phs w wl gs rest)
   = Some (content_tree ttl b phs w (if ''scroll'' \<in> set wl then wl else wl @ [''scroll'']) gs rest)"
  by (simp add: content_tree_def has_class_def on_def modify_first_list_phases
      class_names_written)

lemma select_companies_content:
  "select_first ''companies-wrap'' (content_tree ttl b phs w wl gs rest)
   = Some (Elem ''div'' ((''class'', ''companies-wrap'') # w) wl [] gs)"
  by (simp add: content_tree_def has_class_def select_first_list_phases class_names_written)

lemma sized_root_steps:
  "attr ''style'' sty (attr ''class'' ''pipeline-container'' (remove_descendants t)) = sized_root t sty []"
  by (simp add: attr_def remove_descendants_def sized_root_def)

lemma append_child_sized_root: "append_child (sized_root t sty kids) c = sized_root t sty (kids @ [c])"
  by (simp add: append_child_def sized_root_def)

lemma report_content_tree:
  "report (Elem ''p'' [] [] ttl []) phs companies
     = content_tree ttl [] phs [] []
         (map (\<lambda>cs. Elem ''div'' [(''class'', ''phase-companies'')] [] [] cs) companies) []"
  by (simp add: report_def content_tree_def)

text \<open>
  The four changes that \<open>renderLegend\<close> and \<open>handleScrollEvent\<close> make through selections
  find their element under a content root that holds the report, and leave the report in
  shape.
\<close>

lemma report_shapeI:
  "t = sized_root t0 sty [content_tree ttl ba phs wa wl gs rest] \<Longrightarrow> report_shape t0 sty ttl phs gs t"
  unfolding report_shape_def by (intro exI)

lemma report_shape_modify:
  assumes "report_shape t0 sty ttl phs gs t"
  shows "\<exists>t'. modify_first ''pipeline-wrap'' (\<lambda>n. append_child n c) t = Some t'
            \<and> report_shape t0 sty ttl phs gs t'"
    and "\<exists>t'. modify_first ''companies-wrap'' (attr ''style'' s) t = Some t'
            \<and> report_shape t0 sty ttl phs gs t'"
    and "\<exists>t'. modify_first ''pipeline-bar'' (attr ''style'' s) t = Some t'
            \<and> report_shape t0 sty ttl phs gs t'"
    and "\<exists>t'. modify_first ''companies-wrap'' (on ''scroll'') t = Some t'
            \<and> report_shape t0 sty ttl phs gs t'"
proof -
  from assms obtain ba wa wl rest where
    t: "t = sized_root t0 sty [content_tree ttl ba phs wa wl gs rest]"
    unfolding report_shape_def by (elim exE)
  have a: "modify_first ''pipeline-wrap'' (\<lambda>n. append_child n c) t
      = Some (sized_root t0 sty [content_tree ttl ba phs wa wl gs (rest @ [c])])"
    unfolding t by (simp add: modify_first_sized_root modify_wrap_content)
  show "\<exists>t'. modify_first ''pipeline-wrap'' (\<lambda>n. append_child n c) t = Some t'
            \<and> report_shape t0 sty ttl phs gs t'"
    by (intro exI conjI, rule a, rule report_shapeI, rule refl)
  have b: "modify_first ''companies-wrap'' (attr ''style'' s) t
      = Some (sized_root t0 sty [content_tree ttl ba phs (set_attr ''style'' s wa) wl gs rest])"
    unfolding t by (simp add: modify_first_sized_root modify_companies_style_content)
  show "\<exists>t'. modify_first ''companies-wrap'' (attr ''style'' s) t = Some t'
            \<and> report_shape t0 sty ttl phs gs t'"
    by (intro exI conjI, rule b, rule report_shapeI, rule refl)
  have c: "modify_first ''pipeline-bar'' (attr ''style'' s) t
      = Some (sized_root t0 sty [content_tree ttl (set_attr ''style'' s ba) phs wa wl gs rest])"
    unfolding t by (simp add: modify_first_sized_root modify_bar_content)
  show "\<exists>t'. modify_first ''pipeline-bar'' (attr ''style'' s) t = Some t'
            \<and> report_shape t0 sty ttl phs gs t'"
    by (intro exI conjI, rule c, rule report_shapeI, rule refl)
  have d: "modify_first ''companies-wrap'' (on ''scroll'') t
      = Some (sized_root t0 sty [content_tree ttl ba phs wa
                (if ''scroll'' \<in> set wl then wl else wl @ [''scroll'']) gs rest])"
    unfolding t by (simp add: modify_first_sized_root modify_companies_on_content)
  show "\<exists>t'. modify_first ''companies-wrap'' (on ''scroll'') t = Some t'
            \<and> report_shape t0 sty ttl phs gs t'"
    by (intro exI conjI, rule d, rule report_shapeI, rule refl)
qed

text \<open>
  A selection that has a match under the content root changes the header, when the header
  has a match, and else the content root; it never reaches the footer.
\<close>

lemma modify_document_found:
  assumes "modify_first cls f (target v) = Some t'"
  shows "\<exists>v'. modify_document cls f v = Some v'
     \<and> footer v' = footer v \<and> settings v' = settings v \<and> events v' = events v
     \<and> (target v' = target v \<or> target v' = t')
     \<and> (select_first cls (header v) = None \<longrightarrow> header v' = header v \<and> target v' = t')"
proof (cases "modify_first cls f (header v)")
  case None
  then have "select_first cls (header v) = None"
    by (simp add: modify_first_None)
  then show ?thesis
    using None assms by (simp add: modify_document_def)
next
  case (Some h')
  then have "select_first cls (header v) \<noteq> None"
    using modify_first_None(1) [of cls f "header v"] by simp
  then show ?thesis
    using Some by (auto simp add: modify_document_def)
qed

lemma modify_selected_shape:
  assumes "report_shape t0 sty ttl phs gs (target v)"
    and "\<And>t. report_shape t0 sty ttl phs gs t \<Longrightarrow>
           \<exists>t'. modify_first cls f t = Some t' \<and> report_shape t0 sty ttl phs gs t'"
  shows "modify_document cls f v = Some (modify_selected cls f v)
     \<and> footer (modify_selected cls f v) = footer v
     \<and> settings (modify_selected cls f v) = settings v
     \<and> events (modify_selected cls f v) = events v
     \<and> report_shape t0 sty ttl phs gs (target (modify_selected cls f v))
     \<and> (select_first cls (header v) = None \<longrightarrow> header (modify_selected cls f v) = header v)"
proof -
  from assms(2) [OF assms(1)] obtain t' where
    t': "modify_first cls f (target v) = Some t'" "report_shape t0 sty ttl phs gs t'"
    by (elim exE conjE)
  from modify_document_found [OF t'(1)] obtain v' where
    v': "modify_document cls f v = Some v'"
      "footer v' = footer v" "settings v' = settings v" "events v' = events v"
      "target v' = target v \<or> target v' = t'"
      "select_first cls (header v) = None \<longrightarrow> header v' = header v \<and> target v' = t'"
    by (elim exE conjE)
  have "modify_selected cls f v = v'"
    by (simp add: modify_selected_def v'(1))
  moreover have "report_shape t0 sty ttl phs gs (target v')"
    using v'(5) assms(1) t'(2) by auto
  ultimately show ?thesis
    using v' by simp
qed

section \<open>The steps of the update\<close>

lemma logExceptions_same: "logExceptions f this args = f this args"
  by (simp add: logExceptions_def split: prod.splits option.splits)

lemma and_then_simps:
  "and_then (None, s) f = f s"
  "and_then (Some e, s) f = (Some e, s)"
  by (simp_all add: and_then_def)

lemma and_then_fst:
  "fst r = None \<Longrightarrow> and_then r f = f (snd r)"
  "fst r = Some e \<Longrightarrow> and_then r f = r"
  by (simp_all add: and_then_def)

lemma update_cases:
  "update h this options =
     (case pipelineData_of (numbers h) options of
        Inl e \<Rightarrow> (Some e, sized_visual h this options)
      | Inr recs \<Rightarrow>
          and_then
            (and_then
               (and_then (renderLayout h (sized_visual h this options))
                  (\<lambda>laid. renderPipelineReport laid
                            (phaseData_of (parseSettings h (guarded_dataView options))) recs
                            (categoryColorData_of (parseSettings h (guarded_dataView options)) recs)))
               (\<lambda>reported. renderLegend h reported
                            (categoryColorData_of (parseSettings h (guarded_dataView options)) recs)))
            (\<lambda>legended.
               (None,
                (handleScrollEvent legended)
                  \<lparr>events := events (handleScrollEvent legended) @ [RenderingFinished options]\<rparr>)))"
  by (simp add: update_def logExceptions_same update_method_def Let_def sized_visual_def
      sized_root_steps split: sum.splits)

lemma pipelineData_of_table:
  assumes "dataViews options = Some (dv # dvs)" and "table dv = Some t"
  shows "pipelineData_of N options
     = Inr (take 250 (map (dp_of N (located_indices (columns t))) (rows t)))"
  using assms by (simp add: pipelineData_of_def first_of_def CONVERTER_table)

lemma renderLayout_frame:
  assumes "settings v = Some st"
  shows "fst (renderLayout h v) = None"
    and "target (snd (renderLayout h v)) = target v"
    and "settings (snd (renderLayout h v)) = settings v"
    and "events (snd (renderLayout h v)) = events v"
    and "toLowerCase (layout (pipeline st)) \<noteq> ''header'' \<Longrightarrow> header (snd (renderLayout h v)) = header v"
    and "toLowerCase (layout (pipeline st)) \<noteq> ''footer'' \<Longrightarrow> footer (snd (renderLayout h v)) = footer v"
  using assms by (simp_all add: renderLayout_def)

lemma renderLayout_none:
  assumes "settings v = Some st"
    and "toLowerCase (layout (pipeline st)) \<noteq> ''header''"
    and "toLowerCase (layout (pipeline st)) \<noteq> ''footer''"
  shows "renderLayout h v = (None, v)"
  using assms by (simp add: renderLayout_def)

lemma renderPipelineReport_frame:
  assumes "settings v = Some st"
  shows "\<exists>companies. snd (renderPipelineReport v phs recs ccd) =
      v\<lparr>target := append_child (target v)
           (report (Elem ''p'' [] [] (title (pipeline st)) []) phs companies)\<rparr>"
  unfolding renderPipelineReport_def Let_def assms option.case
  by (auto split: option.splits)


lemma reported_content:
  assumes "snd (renderPipelineReport v phs recs ccd) =
      v\<lparr>target := append_child (target v) (report (Elem ''p'' [] [] ttl []) phs companies)\<rparr>"
    and "target v = sized_root t0 sty []"
  shows "snd (renderPipelineReport v phs recs ccd) =
      v\<lparr>target := sized_root t0 sty [content_tree ttl [] phs [] []
         (map (\<lambda>cs. Elem ''div'' [(''class'', ''phase-companies'')] [] [] cs) companies) []]\<rparr>"
  unfolding assms(1) by (simp add: assms(2) append_child_sized_root report_content_tree)

lemma reported_shape:
  assumes "settings v = Some st" and "target v = sized_root t0 sty []"
  shows "\<exists>gs. snd (renderPipelineReport v phs recs ccd) =
           v\<lparr>target := sized_root t0 sty [content_tree (title (pipeline st)) [] phs [] [] gs []]\<rparr>"
proof -
  from renderPipelineReport_frame [OF assms(1)] obtain companies where
    "snd (renderPipelineReport v phs recs ccd) =
      v\<lparr>target := append_child (target v)
           (report (Elem ''p'' [] [] (title (pipeline st)) []) phs companies)\<rparr>" ..
  from reported_content [OF this assms(2)] show ?thesis ..
qed

text \<open>
  On a content root that holds the report, \<open>renderLegend\<close> returns and
  \<open>handleScrollEvent\<close> finds its elements; the report keeps its shape and the footer is
  not reached. The header is not reached either unless it has an element of one of the
  selected classes.
\<close>

lemma renderLegend_shape:
  assumes "report_shape t0 sty ttl phs gs (target v)"
  shows "fst (renderLegend h v ccd) = None"
    and "footer (snd (renderLegend h v ccd)) = footer v"
    and "settings (snd (renderLegend h v ccd)) = settings v"
    and "events (snd (renderLegend h v ccd)) = events v"
    and "report_shape t0 sty ttl phs gs (target (snd (renderLegend h v ccd)))"
    and "select_first ''pipeline-wrap'' (header v) = None \<Longrightarrow>
         select_first ''companies-wrap'' (header v) = None \<Longrightarrow>
         header (snd (renderLegend h v ccd)) = header v"
proof -
  let ?lw = "Elem ''div'' [(''class'', ''legend-wrap'')] [] [] (map legend_node ccd)"
  let ?f = "\<lambda>n. append_child n ?lw"
  let ?g = "attr ''style''
       (''height:calc(100% - '' @ toString_number (numbers h)
           (add_number (numbers h) (literal (numbers h) 260) (measured_height h ?lw)) @ ''px);'')"
  let ?v1 = "modify_selected ''pipeline-wrap'' ?f v"
  have one: "modify_document ''pipeline-wrap'' ?f v = Some ?v1
     \<and> footer ?v1 = footer v \<and> settings ?v1 = settings v \<and> events ?v1 = events v
     \<and> report_shape t0 sty ttl phs gs (target ?v1)
     \<and> (select_first ''pipeline-wrap'' (header v) = None \<longrightarrow> header ?v1 = header v)"
    by (rule modify_selected_shape [OF assms]) (rule report_shape_modify(1))
  then have s1: "report_shape t0 sty ttl phs gs (target ?v1)"
    by (elim conjE)
  let ?v2 = "modify_selected ''companies-wrap'' ?g ?v1"
  have two: "modify_document ''companies-wrap'' ?g ?v1 = Some ?v2
     \<and> footer ?v2 = footer ?v1 \<and> settings ?v2 = settings ?v1 \<and> events ?v2 = events ?v1
     \<and> report_shape t0 sty ttl phs gs (target ?v2)
     \<and> (select_first ''companies-wrap'' (header ?v1) = None \<longrightarrow> header ?v2 = header ?v1)"
    by (rule modify_selected_shape [OF s1]) (rule report_shape_modify(2))
  have r: "renderLegend h v ccd = (None, ?v2)"
    using one by (simp add: renderLegend_def Let_def)
  show "fst (renderLegend h v ccd) = None"
    by (simp add: r)
  show "footer (snd (renderLegend h v ccd)) = footer v"
    using one two by (simp add: r)
  show "settings (snd (renderLegend h v ccd)) = settings v"
    using one two by (simp add: r)
  show "events (snd (renderLegend h v ccd)) = events v"
    using one two by (simp add: r)
  show "report_shape t0 sty ttl phs gs (target (snd (renderLegend h v ccd)))"
    using two by (simp add: r)
  show "header (snd (renderLegend h v ccd)) = header v"
    if "select_first ''pipeline-wrap'' (header v) = None"
      and "select_first ''companies-wrap'' (header v) = None"
    using one two that by (simp add: r)
qed

lemma handleScrollEvent_shape:
  assumes "report_shape t0 sty ttl phs gs (target v)"
  shows "footer (handleScrollEvent v) = footer v"
    and "settings (handleScrollEvent v) = settings v"
    and "events (handleScrollEvent v) = events v"
    and "report_shape t0 sty ttl phs gs (target (handleScrollEvent v))"
    and "select_first ''pipeline-bar'' (header v) = None \<Longrightarrow>
         select_first ''companies-wrap'' (header v) = None \<Longrightarrow>
         header (handleScrollEvent v) = header v"
proof -
  let ?v1 = "modify_selected ''pipeline-bar'' (attr ''style'' ''margin-left:0px;'') v"
  have one: "modify_document ''pipeline-bar'' (attr ''style'' ''margin-left:0px;'') v = Some ?v1
     \<and> footer ?v1 = footer v \<and> settings ?v1 = settings v \<and> events ?v1 = events v
     \<and> report_shape t0 sty ttl phs gs (target ?v1)
     \<and> (select_first ''pipeline-bar'' (header v) = None \<longrightarrow> header ?v1 = header v)"
    by (rule modify_selected_shape [OF assms]) (rule report_shape_modify(3))
  then have s1: "report_shape t0 sty ttl phs gs (target ?v1)"
    by (elim conjE)
  let ?v2 = "modify_selected ''companies-wrap'' (on ''scroll'') ?v1"
  have two: "modify_document ''companies-wrap'' (on ''scroll'') ?v1 = Some ?v2
     \<and> footer ?v2 = footer ?v1 \<and> settings ?v2 = settings ?v1 \<and> events ?v2 = events ?v1
     \<and> report_shape t0 sty ttl phs gs (target ?v2)
     \<and> (select_first ''companies-wrap'' (header ?v1) = None \<longrightarrow> header ?v2 = header ?v1)"
    by (rule modify_selected_shape [OF s1]) (rule report_shape_modify(4))
  have r: "handleScrollEvent v = ?v2"
    by (simp add: handleScrollEvent_def)
  show "footer (handleScrollEvent v) = footer v"
    using one two by (simp add: r)
  show "settings (handleScrollEvent v) = settings v"
    using one two by (simp add: r)
  show "events (handleScrollEvent v) = events v"
    using one two by (simp add: r)
  show "report_shape t0 sty ttl phs gs (target (handleScrollEvent v))"
    using two by (simp add: r)
  show "header (handleScrollEvent v) = header v"
    if "select_first ''pipeline-bar'' (header v) = None"
      and "select_first ''companies-wrap'' (header v) = None"
    using one two that by (simp add: r)
qed


text \<open>
  An update that converts its records runs \<open>renderLayout\<close>, which returns, and
  \<open>renderPipelineReport\<close>, which leaves the report under the content root whether it
  returns or raises; the update raises what the report raises, and otherwise runs to its
  end. From the state \<open>renderLayout\<close> leaves, the footer stays, the report keeps its
  shape, and the header stays when it has no element of a selected class.
\<close>

lemma update_after_report:
  fixes h :: "'n host" and this :: "'n Visual" and options :: "'n VisualUpdateOptions"
  defines "st \<equiv> parseSettings h (guarded_dataView options)"
  defines "laid \<equiv> snd (renderLayout h (sized_visual h this options))"
  defines "u \<equiv> snd (update h this options)"
  assumes p: "pipelineData_of (numbers h) options = Inr recs"
    and rep: "snd (renderPipelineReport laid (phaseData_of st) recs (categoryColorData_of st recs))
       = laid\<lparr>target := sized_root t0 sty [content_tree ttl [] phs [] [] gs []]\<rparr>"
  shows "fst (update h this options)
       = fst (renderPipelineReport laid (phaseData_of st) recs (categoryColorData_of st recs))"
    and "footer u = footer laid"
    and "settings u = Some st"
    and "report_shape t0 sty ttl phs gs (target u)"
    and "select_first ''pipeline-wrap'' (header laid) = None \<Longrightarrow>
         select_first ''companies-wrap'' (header laid) = None \<Longrightarrow>
         select_first ''pipeline-bar'' (header laid) = None \<Longrightarrow> header u = header laid"
    and "fst (renderPipelineReport laid (phaseData_of st) recs (categoryColorData_of st recs)) = None \<Longrightarrow>
         header u = header (handleScrollEvent (snd (renderLegend h
           (laid\<lparr>target := sized_root t0 sty [content_tree ttl [] phs [] [] gs []]\<rparr>)
           (categoryColorData_of st recs))))"
    and "fst (renderPipelineReport laid (phaseData_of st) recs (categoryColorData_of st recs)) = Some e \<Longrightarrow>
         u = laid\<lparr>target := sized_root t0 sty [content_tree ttl [] phs [] [] gs []]\<rparr>"
proof -
  let ?ccd = "categoryColorData_of st recs"
  let ?r = "renderPipelineReport laid (phaseData_of st) recs ?ccd"
  let ?rep = "laid\<lparr>target := sized_root t0 sty [content_tree ttl [] phs [] [] gs []]\<rparr>"
  let ?leg = "snd (renderLegend h ?rep ?ccd)"
  have sized: "settings (sized_visual h this options) = Some st"
    by (simp add: sized_visual_def st_def)
  have lay: "renderLayout h (sized_visual h this options) = (None, laid)"
    using renderLayout_frame(1) [OF sized, of h] unfolding laid_def
    by (simp add: prod_eq_iff)
  have laid: "settings laid = Some st"
    unfolding laid_def using renderLayout_frame(3) [OF sized, of h] sized by simp
  have shape: "report_shape t0 sty ttl phs gs (target ?rep)"
    by (rule report_shapeI) simp
  have leg: "fst (renderLegend h ?rep ?ccd) = None" "footer ?leg = footer laid"
    "settings ?leg = Some st" "report_shape t0 sty ttl phs gs (target ?leg)"
    using renderLegend_shape(1-5) [OF shape, of h ?ccd] laid by simp_all
  have leg_header: "header ?leg = header laid"
    if "select_first ''pipeline-wrap'' (header laid) = None"
      and "select_first ''companies-wrap'' (header laid) = None"
    using renderLegend_shape(6) [OF shape, of h ?ccd] that by simp
  have upd: "update h this options =
      (case fst ?r of
         Some e \<Rightarrow> (Some e, ?rep)
       | None \<Rightarrow>
           (None, (handleScrollEvent ?leg)
                    \<lparr>events := events (handleScrollEvent ?leg) @ [RenderingFinished options]\<rparr>))"
  proof (cases "fst ?r")
    case None
    have "and_then (and_then ?r (\<lambda>reported. renderLegend h reported ?ccd))
            (\<lambda>legended. (None, (handleScrollEvent legended)
               \<lparr>events := events (handleScrollEvent legended) @ [RenderingFinished options]\<rparr>))
        = (None, (handleScrollEvent ?leg)
               \<lparr>events := events (handleScrollEvent ?leg) @ [RenderingFinished options]\<rparr>)"
      unfolding and_then_fst(1) [OF None] rep and_then_fst(1) [OF leg(1)] ..
    then show ?thesis
      unfolding update_cases p sum.case st_def [symmetric] lay and_then_simps None option.case .
  next
    case (Some e)
    have "?r = (Some e, ?rep)"
      using rep Some by (simp add: prod_eq_iff)
    then have "and_then (and_then ?r (\<lambda>reported. renderLegend h reported ?ccd))
            (\<lambda>legended. (None, (handleScrollEvent legended)
               \<lparr>events := events (handleScrollEvent legended) @ [RenderingFinished options]\<rparr>))
        = (Some e, ?rep)"
      by (simp add: and_then_simps)
    then show ?thesis
      unfolding update_cases p sum.case st_def [symmetric] lay and_then_simps Some option.case .
  qed
  show "fst (update h this options) = fst ?r"
    unfolding upd by (simp split: option.splits)
  show "footer u = footer laid"
    unfolding u_def upd using leg handleScrollEvent_shape(1) [OF leg(4)]
    by (simp split: option.splits)
  show "settings u = Some st"
    unfolding u_def upd using leg laid handleScrollEvent_shape(2) [OF leg(4)]
    by (simp split: option.splits)
  show "report_shape t0 sty ttl phs gs (target u)"
    unfolding u_def upd using shape handleScrollEvent_shape(4) [OF leg(4)]
    by (simp split: option.splits)
  show "header u = header laid"
    if "select_first ''pipeline-wrap'' (header laid) = None"
      and "select_first ''companies-wrap'' (header laid) = None"
      and "select_first ''pipeline-bar'' (header laid) = None"
    unfolding u_def upd
    using leg_header [OF that(1,2)] handleScrollEvent_shape(5) [OF leg(4)] that
    by (simp split: option.splits)
  show "header u = header (handleScrollEvent ?leg)" if "fst ?r = None"
    unfolding u_def upd that by simp
  show "u = ?rep" if "fst ?r = Some e"
    unfolding u_def upd that by simp
qed


lemma laid_visual:
  fixes h :: "'n host" and this :: "'n Visual" and options :: "'n VisualUpdateOptions"
  defines "st \<equiv> parseSettings h (guarded_dataView options)"
  defines "laid \<equiv> snd (renderLayout h (sized_visual h this options))"
  shows "settings laid = Some st"
    and "target laid = sized_root (target this) (target_style (numbers h) st (viewport options)) []"
    and "toLowerCase (layout (pipeline st)) \<noteq> ''header'' \<Longrightarrow> header laid = header this"
    and "toLowerCase (layout (pipeline st)) \<noteq> ''footer'' \<Longrightarrow> footer laid = footer this"
    and "toLowerCase (layout (pipeline st)) = ''header'' \<Longrightarrow>
         header laid = html (parseHTML h (band_markup st)) (attr ''class'' ''visual-header'' (header this))"
proof -
  have sized: "settings (sized_visual h this options) = Some st"
    by (simp add: sized_visual_def st_def)
  show "settings laid = Some st"
    unfolding laid_def using renderLayout_frame(3) [OF sized, of h] sized by simp
  show "target laid = sized_root (target this) (target_style (numbers h) st (viewport options)) []"
    unfolding laid_def using renderLayout_frame(2) [OF sized, of h]
    by (simp add: sized_visual_def st_def)
  show "header laid = header this" if "toLowerCase (layout (pipeline st)) \<noteq> ''header''"
    unfolding laid_def using renderLayout_frame(5) [OF sized that, of h]
    by (simp add: sized_visual_def)
  show "footer laid = footer this" if "toLowerCase (layout (pipeline st)) \<noteq> ''footer''"
    unfolding laid_def using renderLayout_frame(6) [OF sized that, of h]
    by (simp add: sized_visual_def)
  show "header laid = html (parseHTML h (band_markup st)) (attr ''class'' ''visual-header'' (header this))"
    if "toLowerCase (layout (pipeline st)) = ''header''"
    unfolding laid_def using that sized
    by (simp add: renderLayout_def sized_visual_def st_def)
qed

text \<open>
  What every update leaves, whether it returns or raises: the content root cleared and
  sized, with what was appended since; the footer that \<open>renderLayout\<close> left; and the header
  that \<open>renderLayout\<close> left when that has no element of a selected class.
\<close>

lemma update_frame:
  fixes h :: "'n host" and this :: "'n Visual" and options :: "'n VisualUpdateOptions"
  defines "st \<equiv> parseSettings h (guarded_dataView options)"
  defines "laid \<equiv> snd (renderLayout h (sized_visual h this options))"
  defines "u \<equiv> snd (update h this options)"
  shows "\<exists>kids. target u
           = sized_root (target this) (target_style (numbers h) st (viewport options)) kids"
    and "toLowerCase (layout (pipeline st)) \<noteq> ''footer'' \<Longrightarrow> footer u = footer this"
    and "toLowerCase (layout (pipeline st)) \<noteq> ''header'' \<Longrightarrow>
         select_first ''pipeline-wrap'' (header this) = None \<Longrightarrow>
         select_first ''companies-wrap'' (header this) = None \<Longrightarrow>
         select_first ''pipeline-bar'' (header this) = None \<Longrightarrow> header u = header this"
    and "pipelineData_of (numbers h) options = Inr recs \<Longrightarrow>
         select_first ''pipeline-wrap'' (header laid) = None \<Longrightarrow>
         select_first ''companies-wrap'' (header laid) = None \<Longrightarrow>
         select_first ''pipeline-bar'' (header laid) = None \<Longrightarrow> header u = header laid"
proof -
  let ?sty = "target_style (numbers h) st (viewport options)"
  have raised: "u = sized_visual h this options" if "pipelineData_of (numbers h) options = Inl e" for e
    unfolding u_def update_cases that by simp
  have laid: "settings laid = Some st" "target laid = sized_root (target this) ?sty []"
    unfolding laid_def st_def by (rule laid_visual(1), rule laid_visual(2))
  have returned: "\<exists>gs. report_shape (target this) ?sty (title (pipeline st)) (phaseData_of st) gs (target u)
      \<and> footer u = footer laid
      \<and> (select_first ''pipeline-wrap'' (header laid) = None \<longrightarrow>
         select_first ''companies-wrap'' (header laid) = None \<longrightarrow>
         select_first ''pipeline-bar'' (header laid) = None \<longrightarrow> header u = header laid)"
    if p: "pipelineData_of (numbers h) options = Inr recs" for recs
  proof -
    from reported_shape [OF laid] obtain gs where
      rep: "snd (renderPipelineReport laid (phaseData_of st) recs (categoryColorData_of st recs))
        = laid\<lparr>target := sized_root (target this) ?sty
             [content_tree (title (pipeline st)) [] (phaseData_of st) [] [] gs []]\<rparr>" ..
    note facts = update_after_report [OF p rep [unfolded laid_def st_def]]
    have "report_shape (target this) ?sty (title (pipeline st)) (phaseData_of st) gs (target u)"
      unfolding u_def st_def by (rule facts(4))
    moreover have "footer u = footer laid"
      unfolding u_def laid_def by (rule facts(2))
    moreover have "header u = header laid"
      if "select_first ''pipeline-wrap'' (header laid) = None"
        and "select_first ''companies-wrap'' (header laid) = None"
        and "select_first ''pipeline-bar'' (header laid) = None"
      unfolding u_def laid_def by (rule facts(5) [OF that [unfolded laid_def]])
    ultimately show ?thesis
      by (intro exI conjI impI)
  qed
  show "\<exists>kids. target u = sized_root (target this) ?sty kids"
  proof (cases "pipelineData_of (numbers h) options")
    case (Inl e)
    have "target u = sized_root (target this) ?sty []"
      unfolding raised [OF Inl] by (simp add: sized_visual_def st_def)
    then show ?thesis ..
  next
    case (Inr recs)
    from returned [OF Inr] obtain gs where
      "report_shape (target this) ?sty (title (pipeline st)) (phaseData_of st) gs (target u)"
      by (elim exE conjE)
    then obtain ba wa wl rest where "target u = sized_root (target this) ?sty
        [content_tree (title (pipeline st)) ba (phaseData_of st) wa wl gs rest]"
      unfolding report_shape_def by (elim exE)
    then show ?thesis ..
  qed
  show "footer u = footer this" if "toLowerCase (layout (pipeline st)) \<noteq> ''footer''"
  proof (cases "pipelineData_of (numbers h) options")
    case (Inl e)
    show ?thesis
      unfolding raised [OF Inl] by (simp add: sized_visual_def)
  next
    case (Inr recs)
    from returned [OF Inr] have "footer u = footer laid"
      by (elim exE conjE)
    also have "footer laid = footer this"
      unfolding laid_def using that unfolding st_def by (rule laid_visual(4))
    finally show ?thesis .
  qed
  show "header u = header laid"
    if "pipelineData_of (numbers h) options = Inr recs"
      and "select_first ''pipeline-wrap'' (header laid) = None"
      and "select_first ''companies-wrap'' (header laid) = None"
      and "select_first ''pipeline-bar'' (header laid) = None"
    using returned [OF that(1)] that(2-4) by (elim exE conjE) simp
  show "header u = header this"
    if l: "toLowerCase (layout (pipeline st)) \<noteq> ''header''"
      and c: "select_first ''pipeline-wrap'' (header this) = None"
        "select_first ''companies-wrap'' (header this) = None"
        "select_first ''pipeline-bar'' (header this) = None"
  proof (cases "pipelineData_of (numbers h) options")
    case (Inl e)
    show ?thesis
      unfolding raised [OF Inl] by (simp add: sized_visual_def)
  next
    case (Inr recs)
    have same: "header laid = header this"
      unfolding laid_def using l unfolding st_def by (rule laid_visual(3))
    from returned [OF Inr] c show ?thesis
      unfolding same by (elim exE conjE) simp
  qed
qed

lemma companies_area:
  assumes "report_shape t0 sty ttl phs gs t"
  shows "\<exists>wa wl. select_first ''companies-wrap'' t
           = Some (Elem ''div'' ((''class'', ''companies-wrap'') # wa) wl [] gs)"
proof -
  from assms obtain ba wa wl rest where
    t: "t = sized_root t0 sty [content_tree ttl ba phs wa wl gs rest]"
    unfolding report_shape_def by (elim exE)
  have "select_first ''companies-wrap'' t
      = Some (Elem ''div'' ((''class'', ''companies-wrap'') # wa) wl [] gs)"
    unfolding t by (simp add: select_first_sized_root select_companies_content)
  then show ?thesis
    by (intro exI)
qed

lemma style_sized_root: "map_of (attrs (sized_root t0 sty kids)) ''style'' = Some sty"
  by (simp add: sized_root_def map_of_set_attr_same)

text \<open>
  When every lookup of a rendered record has a result the update returns, and the
  companies area has the company blocks of each phase label.
\<close>

lemma update_returns:
  fixes h :: "'n host" and this :: "'n Visual" and options :: "'n VisualUpdateOptions"
  defines "st \<equiv> parseSettings h (guarded_dataView options)"
  assumes p: "pipelineData_of (numbers h) options = Inr recs"
    and found: "\<forall>pd \<in> set (phaseData_of st). \<forall>d \<in> set recs.
        Phase d = Some pd \<longrightarrow> found_style (categoryColorData_of st recs) d \<noteq> None"
  shows "fst (update h this options) = None"
    and "report_shape (target this) (target_style (numbers h) st (viewport options))
           (title (pipeline st)) (phaseData_of st)
           (map (\<lambda>cs. Elem ''div'' [(''class'', ''phase-companies'')] [] [] cs)
              (map (\<lambda>pd. map (\<lambda>d. company_block (the (found_style (categoryColorData_of st recs) d)) d)
                           (filter (\<lambda>d. Phase d = Some pd) recs)) (phaseData_of st)))
           (target (snd (update h this options)))"
proof -
  let ?laid = "snd (renderLayout h (sized_visual h this options))"
  let ?ccd = "categoryColorData_of st recs"
  have laid: "settings ?laid = Some st"
    "target ?laid = sized_root (target this) (target_style (numbers h) st (viewport options)) []"
    unfolding st_def by (rule laid_visual(1), rule laid_visual(2))
  note r = renderPipelineReport_returns [OF laid(1) found]
  have "snd (renderPipelineReport ?laid (phaseData_of st) recs ?ccd) =
      ?laid\<lparr>target := append_child (target ?laid)
        (report (Elem ''p'' [] [] (title (pipeline st)) []) (phaseData_of st)
           (map (\<lambda>pd. map (\<lambda>d. company_block (the (found_style ?ccd d)) d)
                       (filter (\<lambda>d. Phase d = Some pd) recs)) (phaseData_of st)))\<rparr>"
    unfolding r by simp
  note rep = reported_content [OF this laid(2)]
  note facts = update_after_report [OF p rep [unfolded st_def]]
  show "fst (update h this options) = None"
    unfolding facts(1) r [unfolded st_def] by simp
  show "report_shape (target this) (target_style (numbers h) st (viewport options))
           (title (pipeline st)) (phaseData_of st)
           (map (\<lambda>cs. Elem ''div'' [(''class'', ''phase-companies'')] [] [] cs)
              (map (\<lambda>pd. map (\<lambda>d. company_block (the (found_style ?ccd d)) d)
                           (filter (\<lambda>d. Phase d = Some pd) recs)) (phaseData_of st)))
           (target (snd (update h this options)))"
    unfolding st_def by (rule facts(4))
qed


text \<open>
  When the header has an element of class \<open>pipeline-wrap\<close>, the legend of an update that
  gets as far goes into the header.
\<close>

lemma renderLegend_header:
  assumes "report_shape t0 sty ttl phs gs (target v)"
    and "modify_first ''pipeline-wrap''
           (\<lambda>n. append_child n (Elem ''div'' [(''class'', ''legend-wrap'')] [] [] (map legend_node ccd)))
           (header v) = Some h'"
    and "select_first ''companies-wrap'' h' = None"
  shows "header (snd (renderLegend h v ccd)) = h'"
proof -
  let ?lw = "Elem ''div'' [(''class'', ''legend-wrap'')] [] [] (map legend_node ccd)"
  let ?g = "attr ''style''
       (''height:calc(100% - '' @ toString_number (numbers h)
           (add_number (numbers h) (literal (numbers h) 260) (measured_height h ?lw)) @ ''px);'')"
  have one: "modify_document ''pipeline-wrap'' (\<lambda>n. append_child n ?lw) v = Some (v\<lparr>header := h'\<rparr>)"
    by (simp add: modify_document_def assms(2))
  have shape: "report_shape t0 sty ttl phs gs (target (v\<lparr>header := h'\<rparr>))"
    using assms(1) by simp
  have "modify_document ''companies-wrap'' ?g (v\<lparr>header := h'\<rparr>)
       = Some (modify_selected ''companies-wrap'' ?g (v\<lparr>header := h'\<rparr>))
     \<and> footer (modify_selected ''companies-wrap'' ?g (v\<lparr>header := h'\<rparr>)) = footer (v\<lparr>header := h'\<rparr>)
     \<and> settings (modify_selected ''companies-wrap'' ?g (v\<lparr>header := h'\<rparr>)) = settings (v\<lparr>header := h'\<rparr>)
     \<and> events (modify_selected ''companies-wrap'' ?g (v\<lparr>header := h'\<rparr>)) = events (v\<lparr>header := h'\<rparr>)
     \<and> report_shape t0 sty ttl phs gs (target (modify_selected ''companies-wrap'' ?g (v\<lparr>header := h'\<rparr>)))
     \<and> (select_first ''companies-wrap'' (header (v\<lparr>header := h'\<rparr>)) = None
      \<longrightarrow> header (modify_selected ''companies-wrap'' ?g (v\<lparr>header := h'\<rparr>)) = header (v\<lparr>header := h'\<rparr>))"
    by (rule modify_selected_shape [OF shape]) (rule report_shape_modify(2))
  then have "select_first ''companies-wrap'' (header (v\<lparr>header := h'\<rparr>)) = None
      \<longrightarrow> header (modify_selected ''companies-wrap'' ?g (v\<lparr>header := h'\<rparr>)) = header (v\<lparr>header := h'\<rparr>)"
    by (elim conjE)
  then have "header (modify_selected ''companies-wrap'' ?g (v\<lparr>header := h'\<rparr>)) = h'"
    using assms(3) by simp
  then show ?thesis
    by (simp add: renderLegend_def Let_def one)
qed

lemma update_header_legend:
  fixes h :: "'n host" and this :: "'n Visual" and options :: "'n VisualUpdateOptions"
  defines "st \<equiv> parseSettings h (guarded_dataView options)"
  defines "laid \<equiv> snd (renderLayout h (sized_visual h this options))"
  assumes p: "pipelineData_of (numbers h) options = Inr recs"
    and found: "\<forall>pd \<in> set (phaseData_of st). \<forall>d \<in> set recs.
        Phase d = Some pd \<longrightarrow> found_style (categoryColorData_of st recs) d \<noteq> None"
    and legend: "modify_first ''pipeline-wrap''
           (\<lambda>n. append_child n (Elem ''div'' [(''class'', ''legend-wrap'')] [] []
                   (map legend_node (categoryColorData_of st recs))))
           (header laid) = Some h'"
    and clean: "select_first ''companies-wrap'' h' = None" "select_first ''pipeline-bar'' h' = None"
  shows "header (snd (update h this options)) = h'"
proof -
  let ?ccd = "categoryColorData_of st recs"
  have laid: "settings laid = Some st"
    "target laid = sized_root (target this) (target_style (numbers h) st (viewport options)) []"
    unfolding st_def laid_def by (rule laid_visual(1), rule laid_visual(2))
  note r = renderPipelineReport_returns [OF laid(1) found]
  have "snd (renderPipelineReport laid (phaseData_of st) recs ?ccd) =
      laid\<lparr>target := append_child (target laid)
        (report (Elem ''p'' [] [] (title (pipeline st)) []) (phaseData_of st)
           (map (\<lambda>pd. map (\<lambda>d. company_block (the (found_style ?ccd d)) d)
                       (filter (\<lambda>d. Phase d = Some pd) recs)) (phaseData_of st)))\<rparr>"
    unfolding r by simp
  note rep = reported_content [OF this laid(2)]
  let ?rep = "laid\<lparr>target := sized_root (target this) (target_style (numbers h) st (viewport options))
       [content_tree (title (pipeline st)) [] (phaseData_of st) [] []
          (map (\<lambda>cs. Elem ''div'' [(''class'', ''phase-companies'')] [] [] cs)
             (map (\<lambda>pd. map (\<lambda>d. company_block (the (found_style ?ccd d)) d)
                         (filter (\<lambda>d. Phase d = Some pd) recs)) (phaseData_of st))) []]\<rparr>"
  have none: "fst (renderPipelineReport laid (phaseData_of st) recs ?ccd) = None"
    unfolding r by simp
  have shape: "report_shape (target this) (target_style (numbers h) st (viewport options))
      (title (pipeline st)) (phaseData_of st)
      (map (\<lambda>cs. Elem ''div'' [(''class'', ''phase-companies'')] [] [] cs)
             (map (\<lambda>pd. map (\<lambda>d. company_block (the (found_style ?ccd d)) d)
                         (filter (\<lambda>d. Phase d = Some pd) recs)) (phaseData_of st)))
      (target ?rep)"
    by (rule report_shapeI) simp
  have leg: "header (snd (renderLegend h ?rep ?ccd)) = h'"
    by (rule renderLegend_header [OF shape _ clean(1)]) (simp add: legend)
  have "header (snd (update h this options)) = header (handleScrollEvent (snd (renderLegend h ?rep ?ccd)))"
    using update_after_report(6) [OF p rep [unfolded st_def laid_def] none [unfolded st_def laid_def]]
    unfolding st_def laid_def .
  also have "\<dots> = header (snd (renderLegend h ?rep ?ccd))"
    by (rule handleScrollEvent_shape(5) [OF renderLegend_shape(5) [OF shape]];
        unfold leg) (rule clean(2), rule clean(1))
  finally show ?thesis
    using leg by simp
qed

text \<open>
  With the categories setting unset the mapping has the category of every rendered record.
\<close>

lemma unset_found:
  assumes "categories (pipeline st) = []" and "d \<in> set recs"
  shows "found_style (categoryColorData_of st recs) d \<noteq> None"
proof -
  have "set (map category (categoryColorData_of st recs)) = Category ` set recs"
    using assms(1)
    by (simp add: categories_of_mapping categoryData_of_def sort_default_def Let_def
        first_occurrences)
  then have "Category d \<in> category ` set (categoryColorData_of st recs)"
    using assms(2) by simp
  then show ?thesis
    unfolding found_style_None by (simp add: image_iff) metis
qed


lemma companies_children:
  assumes "report_shape t0 sty ttl phs gs t"
  shows "map_option children (select_first ''companies-wrap'' t) = Some gs"
proof -
  from companies_area [OF assms] obtain wa wl where
    "select_first ''companies-wrap'' t
       = Some (Elem ''div'' ((''class'', ''companies-wrap'') # wa) wl [] gs)"
    by (elim exE)
  then show ?thesis by simp
qed

section \<open>The records that reach the rendering steps\<close>

text \<open>
  Claim C3. For a dataset with a table, \<open>update\<close> converts the rows, one record a row,
  and its rendering steps get the first 250 of the converted records and nothing else:
  the update is \<open>renderLayout\<close>, then \<open>renderPipelineReport\<close> on these records and the
  mapping made of them, then \<open>renderLegend\<close> on that mapping, then \<open>handleScrollEvent\<close>,
  each step run when the ones before returned. The records passed are at most 250, and
  exactly 250 when the table has more than 250 rows.
\<close>

theorem update_renders_first_250:
  assumes "dataViews options = Some (dv # dvs)" and "table dv = Some t"
  shows "\<exists>converted recs.
       CONVERTER (numbers h) (Some dv) = Inr converted
     \<and> length converted = length (rows t)
     \<and> recs = take 250 converted
     \<and> length recs \<le> 250
     \<and> (250 < length (rows t) \<longrightarrow> length recs = 250)
     \<and> update h this options =
         and_then
           (and_then
              (and_then (renderLayout h (sized_visual h this options))
                 (\<lambda>laid. renderPipelineReport laid
                           (phaseData_of (parseSettings h (guarded_dataView options))) recs
                           (categoryColorData_of (parseSettings h (guarded_dataView options)) recs)))
              (\<lambda>reported. renderLegend h reported
                           (categoryColorData_of (parseSettings h (guarded_dataView options)) recs)))
           (\<lambda>legended.
              (None,
               (handleScrollEvent legended)
                 \<lparr>events := events (handleScrollEvent legended) @ [RenderingFinished options]\<rparr>))"
proof -
  let ?converted = "map (dp_of (numbers h) (located_indices (columns t))) (rows t)"
  have c: "CONVERTER (numbers h) (Some dv) = Inr ?converted"
    by (rule CONVERTER_table [OF assms(2)])
  have p: "pipelineData_of (numbers h) options = Inr (take 250 ?converted)"
    by (rule pipelineData_of_table [OF assms])
  show ?thesis
  proof (intro exI conjI impI)
    show "CONVERTER (numbers h) (Some dv) = Inr ?converted"
      by (rule c)
    show "length ?converted = length (rows t)"
      by simp
    show "take 250 ?converted = take 250 ?converted" ..
    show "length (take 250 ?converted) \<le> 250"
      by simp
    show "length (take 250 ?converted) = 250" if "250 < length (rows t)"
      using that by simp
    show "update h this options =
         and_then
           (and_then
              (and_then (renderLayout h (sized_visual h this options))
                 (\<lambda>laid. renderPipelineReport laid
                           (phaseData_of (parseSettings h (guarded_dataView options)))
                           (take 250 ?converted)
                           (categoryColorData_of (parseSettings h (guarded_dataView options))
                              (take 250 ?converted))))
              (\<lambda>reported. renderLegend h reported
                           (categoryColorData_of (parseSettings h (guarded_dataView options))
                              (take 250 ?converted))))
           (\<lambda>legended.
              (None,
               (handleScrollEvent legended)
                 \<lparr>events := events (handleScrollEvent legended) @ [RenderingFinished options]\<rparr>))"
      unfolding update_cases p sum.case ..
  qed
qed

theorem update_renders_first_250_witness:
  "dataViews large_options = Some [\<lparr>table = Some large_table\<rparr>]
   \<and> length (rows large_table) = 251
   \<and> (\<exists>converted recs.
       CONVERTER (numbers (example_host [] [] [])) (Some \<lparr>table = Some large_table\<rparr>) = Inr converted
     \<and> length converted = length (rows large_table)
     \<and> recs = take 250 converted
     \<and> length recs \<le> 250
     \<and> (250 < length (rows large_table) \<longrightarrow> length recs = 250)
     \<and> update (example_host [] [] []) constructor large_options =
         and_then
           (and_then
              (and_then (renderLayout (example_host [] [] [])
                           (sized_visual (example_host [] [] []) constructor large_options))
                 (\<lambda>laid. renderPipelineReport laid
                           (phaseData_of (parseSettings (example_host [] [] [])
                              (guarded_dataView large_options))) recs
                           (categoryColorData_of (parseSettings (example_host [] [] [])
                              (guarded_dataView large_options)) recs)))
              (\<lambda>reported. renderLegend (example_host [] [] []) reported
                           (categoryColorData_of (parseSettings (example_host [] [] [])
                              (guarded_dataView large_options)) recs)))
           (\<lambda>legended.
              (None,
               (handleScrollEvent legended)
                 \<lparr>events := events (handleScrollEvent legended) @ [RenderingFinished large_options]\<rparr>)))"
proof -
  have a: "dataViews large_options = Some [\<lparr>table = Some large_table\<rparr>]"
    by (simp add: large_options_def)
  have b: "table \<lparr>table = Some large_table\<rparr> = Some large_table"
    by simp
  have n: "length (rows large_table) = 251"
    by (simp add: large_table_def)
  show ?thesis
    by (intro conjI, rule a, rule n, rule update_renders_first_250 [OF a b])
qed


section \<open>Updates of the example visual\<close>

lemma example_host_parts:
  "numbers (example_host lay cats url) = small_integers"
  "parseSettings (example_host lay cats url) dv = example_settings lay cats url"
  "parseHTML (example_host lay cats url) = example_parser"
  "measured_height (example_host lay cats url) n = 20"
  by (simp_all add: example_host_def)

lemma example_settings_parts:
  "layout (pipeline (example_settings lay cats url)) = lay"
  "categories (pipeline (example_settings lay cats url)) = cats"
  "imgURL (pipeline (example_settings lay cats url)) = url"
  "title (pipeline (example_settings lay cats url)) = ''Pipeline''"
  "phaseData_of (example_settings lay cats url) = [''Lead'', ''Closed'']"
  by (simp_all add: example_settings_def phaseData_of_def)

lemma example_host_records:
  "pipelineData_of (numbers (example_host lay cats url)) example_options = Inr example_records"
  by (simp add: example_host_parts example_pipelineData)

lemma example_found:
  "\<forall>pd \<in> set (phaseData_of (parseSettings (example_host lay [] url) dv)).
     \<forall>d \<in> set example_records. Phase d = Some pd \<longrightarrow>
       found_style (categoryColorData_of (parseSettings (example_host lay [] url) dv) example_records) d
         \<noteq> None"
  by (simp add: unset_found example_host_parts example_settings_parts(2))

lemma constructor_parts:
  "header constructor = Elem ''div'' [] [] [] []"
  "target constructor = Elem ''div'' [] [] [] []"
  "footer constructor = Elem ''div'' [] [] [] []"
  "select_first cls (header constructor) = None"
  by (simp_all add: constructor_def has_class_def)

lemma example_decimals:
  "decimal 390 = ''390''" "decimal 500 = ''500''" "decimal 800 = ''800''" "decimal 280 = ''280''"
  by (simp_all add: decimal_def decimal_nat.simps digit_char_def)

lemma example_layouts:
  "toLowerCase [] = []"
  "toLowerCase ''none'' = ''none''"
  "toLowerCase ''Header'' = ''header''"
  "toLowerCase ''header'' = ''header''"
  by (simp_all add: toLowerCase_def lower_char_def)


section \<open>Missing datasets\<close>

text \<open>
  With a table that has no rows the update returns and every phase group is empty.
\<close>

lemma update_empty_rows:
  assumes "dataViews options = Some (dv # dvs)" and "table dv = Some t" and "rows t = []"
  shows "fst (update h this options) = None"
    and "map_option children (select_first ''companies-wrap'' (target (snd (update h this options))))
       = Some (map (\<lambda>pd. Elem ''div'' [(''class'', ''phase-companies'')] [] [] [])
                 (phaseData_of (parseSettings h (guarded_dataView options))))"
proof -
  have p: "pipelineData_of (numbers h) options = Inr []"
    using pipelineData_of_table [OF assms(1,2), of "numbers h"] by (simp add: assms(3))
  have found: "\<forall>pd \<in> set (phaseData_of (parseSettings h (guarded_dataView options))).
      \<forall>d \<in> set []. Phase d = Some pd \<longrightarrow>
        found_style (categoryColorData_of (parseSettings h (guarded_dataView options)) []) d \<noteq> None"
    by simp
  show "fst (update h this options) = None"
    by (rule update_returns(1) [OF p found])
  show "map_option children (select_first ''companies-wrap'' (target (snd (update h this options))))
       = Some (map (\<lambda>pd. Elem ''div'' [(''class'', ''phase-companies'')] [] [] [])
                 (phaseData_of (parseSettings h (guarded_dataView options))))"
    unfolding companies_children [OF update_returns(2) [OF p found]] by (simp add: comp_def)
qed

text \<open>
  Claim C6, at the inputs where the code departs from it: with a data view that has no
  table, with an empty list of data views and with no list of data views, \<open>update\<close> raises a
  \<open>TypeError\<close> (from reading \<open>rows\<close> of the missing table, \<open>table\<close> of the missing data view,
  and element \<open>0\<close> of the missing list), having notified the host, stored the settings and
  cleared and sized the content root; it renders nothing and does not notify the end.
\<close>

theorem update_missing_table_raises:
  "update h this \<lparr>viewport = vp, dataViews = Some [\<lparr>table = None\<rparr>]\<rparr>
     = (Some (TypeError ''rows''),
        sized_visual h this \<lparr>viewport = vp, dataViews = Some [\<lparr>table = None\<rparr>]\<rparr>)
   \<and> update h this \<lparr>viewport = vp, dataViews = Some []\<rparr>
     = (Some (TypeError ''table''), sized_visual h this \<lparr>viewport = vp, dataViews = Some []\<rparr>)
   \<and> update h this \<lparr>viewport = vp, dataViews = None\<rparr>
     = (Some (TypeError ''0''), sized_visual h this \<lparr>viewport = vp, dataViews = None\<rparr>)"
  by (simp add: update_cases pipelineData_of_def first_of_def CONVERTER_def)

section \<open>The size of the content root\<close>

text \<open>
  Every update, returning or raising, leaves the content root with the style computed
  from the viewport and the layout setting.
\<close>

lemma update_target_style:
  "map_of (attrs (target (snd (update h this options)))) ''style''
     = Some (target_style (numbers h) (parseSettings h (guarded_dataView options)) (viewport options))"
proof -
  from update_frame(1) [of h this options] obtain kids where
    "target (snd (update h this options))
       = sized_root (target this)
           (target_style (numbers h) (parseSettings h (guarded_dataView options)) (viewport options))
           kids" ..
  then show ?thesis
    by (simp add: style_sized_root)
qed

text \<open>
  Claim C9, at an input where the code departs from it. The layout setting is \<open>none\<close>, the
  viewport is 500 high and 800 wide. The update returns; the content root is 390 high, so
  110 are taken off the height; header and footer are the empty elements of the
  constructor, so no band is drawn.
\<close>

theorem update_reserves_without_band:
  "fst (update (example_host ''none'' [] ''logo.png'') constructor example_options) = None
   \<and> map_of (attrs (target (snd (update (example_host ''none'' [] ''logo.png'') constructor
                                    example_options)))) ''style''
       = Some ''height:390px;width:800px''
   \<and> header (snd (update (example_host ''none'' [] ''logo.png'') constructor example_options))
       = Elem ''div'' [] [] [] []
   \<and> footer (snd (update (example_host ''none'' [] ''logo.png'') constructor example_options))
       = Elem ''div'' [] [] [] []"
proof (intro conjI)
  let ?h = "example_host ''none'' [] ''logo.png''"
  have lay: "toLowerCase (layout (pipeline (parseSettings ?h (guarded_dataView example_options)))) \<noteq> ''header''"
    "toLowerCase (layout (pipeline (parseSettings ?h (guarded_dataView example_options)))) \<noteq> ''footer''"
    by (simp_all add: example_host_parts example_settings_parts example_layouts)
  show "fst (update ?h constructor example_options) = None"
    by (rule update_returns(1) [OF example_host_records example_found])
  show "map_of (attrs (target (snd (update ?h constructor example_options)))) ''style''
       = Some ''height:390px;width:800px''"
    unfolding update_target_style
    by (simp add: target_style_def example_host_parts example_settings_parts example_options_def
        small_integers_def example_decimals)
  show "header (snd (update ?h constructor example_options)) = Elem ''div'' [] [] [] []"
    using update_frame(3) [OF lay(1) constructor_parts(4) constructor_parts(4) constructor_parts(4)]
    by (simp add: constructor_parts(1))
  show "footer (snd (update ?h constructor example_options)) = Elem ''div'' [] [] [] []"
    using update_frame(2) [OF lay(2), of constructor]
    by (simp add: constructor_parts(3))
qed


section \<open>The companies area\<close>

lemma example_report_raises:
  assumes "settings v = Some (example_settings lay ''Marketing'' url)"
  shows "renderPipelineReport v [''Lead'', ''Closed''] example_records
           [\<lparr>category = Some ''Marketing'', color = Some ''#2ECC71''\<rparr>]
     = (Some (TypeError ''color''),
        v\<lparr>target := append_child (target v)
            (report (Elem ''p'' [] [] ''Pipeline'' []) [''Lead'', ''Closed'']
               [[Elem ''div'' [(''class'', ''company'')] [] []
                   [Elem ''p'' [(''class'', ''company-name'')] [] [] []]],
                [Elem ''div'' [(''class'', ''company'')] [] []
                   [Elem ''p'' [(''class'', ''company-name'')] [] [] []]]])\<rparr>)"
  by (simp add: renderPipelineReport_def Let_def assms example_records_def styled_def
      color_style_def example_settings_def company_def)

lemma example_categories_marketing:
  "categoryColorData_of (example_settings lay ''Marketing'' url) recs
     = [\<lparr>category = Some ''Marketing'', color = Some ''#2ECC71''\<rparr>]"
  by (simp add: categoryColorData_of_def categoryData_of_def example_settings_def
      sort_default_def colors_at_def colors_def)

text \<open>
  Claim C5, where the code departs from it. The categories setting is \<open>Marketing\<close> and the
  two records have the category Sales: the update raises at the first colour lookup, and
  the companies area is left with one group per phase label whose company block has an
  empty first paragraph without style, and no second paragraph.
\<close>

theorem update_companies_area_counterexample:
  "fst (update (example_host [] ''Marketing'' []) constructor example_options)
     = Some (TypeError ''color'')
   \<and> map_option children
       (select_first ''companies-wrap''
          (target (snd (update (example_host [] ''Marketing'' []) constructor example_options))))
     = Some [Elem ''div'' [(''class'', ''phase-companies'')] [] []
               [Elem ''div'' [(''class'', ''company'')] [] []
                  [Elem ''p'' [(''class'', ''company-name'')] [] [] []]],
             Elem ''div'' [(''class'', ''phase-companies'')] [] []
               [Elem ''div'' [(''class'', ''company'')] [] []
                  [Elem ''p'' [(''class'', ''company-name'')] [] [] []]]]"
proof -
  let ?h = "example_host [] ''Marketing'' []"
  let ?st = "parseSettings ?h (guarded_dataView example_options)"
  let ?laid = "snd (renderLayout ?h (sized_visual ?h constructor example_options))"
  let ?gs = "[[Elem ''div'' [(''class'', ''company'')] [] []
                   [Elem ''p'' [(''class'', ''company-name'')] [] [] []]],
              [Elem ''div'' [(''class'', ''company'')] [] []
                   [Elem ''p'' [(''class'', ''company-name'')] [] [] []]]]"
  have laid: "settings ?laid = Some (example_settings [] ''Marketing'' [])"
    using laid_visual(1) [of ?h constructor example_options] by (simp add: example_host_parts)
  note target = laid_visual(2) [of ?h constructor example_options]
  have r: "renderPipelineReport ?laid (phaseData_of ?st) example_records
             (categoryColorData_of ?st example_records)
     = (Some (TypeError ''color''),
        ?laid\<lparr>target := append_child (target ?laid)
            (report (Elem ''p'' [] [] ''Pipeline'' []) [''Lead'', ''Closed''] ?gs)\<rparr>)"
    unfolding example_host_parts example_settings_parts example_categories_marketing
    by (rule example_report_raises [OF laid])
  have "snd (renderPipelineReport ?laid (phaseData_of ?st) example_records
             (categoryColorData_of ?st example_records))
     = ?laid\<lparr>target := append_child (target ?laid)
            (report (Elem ''p'' [] [] ''Pipeline'' []) (phaseData_of ?st) ?gs)\<rparr>"
    unfolding r by (simp add: example_host_parts example_settings_parts)
  note rep = reported_content [OF this target]
  have e: "fst (renderPipelineReport ?laid (phaseData_of ?st) example_records
             (categoryColorData_of ?st example_records)) = Some (TypeError ''color'')"
    unfolding r by simp
  have "fst (update ?h constructor example_options) = Some (TypeError ''color'')"
    unfolding update_after_report(1) [OF example_host_records rep] by (rule e)
  moreover have "map_option children
       (select_first ''companies-wrap'' (target (snd (update ?h constructor example_options))))
     = Some (map (\<lambda>cs. Elem ''div'' [(''class'', ''phase-companies'')] [] [] cs) ?gs)"
    by (rule companies_children [OF update_after_report(4) [OF example_host_records rep]])
  ultimately show ?thesis
    by simp
qed

text \<open>
  Claim C5, as the code has it. For a dataset with a table, the rendered records are the
  first 250 converted records. When the Category of each of them whose Phase is a phase
  label occurs in the category-colour mapping, the update returns and the children of the
  companies area (the first element of class \<open>companies-wrap\<close> under the content root) are
  the groups of the labels of the comma-split phases setting, in order. The group of a
  label has one company block for each rendered record with that Phase, in the order of
  the records; the block has two paragraphs, with the record's Title and with its Name
  (nothing for \<open>null\<close>), both with the style \<open>color:c;\<close> for the colour \<open>c\<close> of the first
  entry of the mapping that has the record's Category.
\<close>

theorem update_companies_area:
  fixes h :: "'n host" and this :: "'n Visual" and options :: "'n VisualUpdateOptions"
  defines "st \<equiv> parseSettings h (guarded_dataView options)"
  assumes "dataViews options = Some (dv # dvs)" and "table dv = Some t"
    and "recs = take 250 (records_of (CONVERTER (numbers h) (Some dv)))"
    and "ccd = categoryColorData_of st recs"
    and "\<forall>pd \<in> set (phaseData_of st). \<forall>d \<in> set recs.
           Phase d = Some pd \<longrightarrow> (\<exists>cd \<in> set ccd. category cd = Category d)"
  shows "fst (update h this options) = None
     \<and> map_option children
         (select_first ''companies-wrap'' (target (snd (update h this options))))
       = Some (map (\<lambda>pd. Elem ''div'' [(''class'', ''phase-companies'')] [] []
                      (map (\<lambda>d. company_block (the (found_style ccd d)) d)
                         (filter (\<lambda>d. Phase d = Some pd) recs)))
                 (phaseData_of st))"
proof -
  have "records_of (CONVERTER (numbers h) (Some dv))
      = map (dp_of (numbers h) (located_indices (columns t))) (rows t)"
    by (simp add: CONVERTER_table [OF assms(3)] records_of_def)
  then have p: "pipelineData_of (numbers h) options = Inr recs"
    using pipelineData_of_table [OF assms(2,3), of "numbers h"] assms(4) by simp
  have found: "\<forall>pd \<in> set (phaseData_of st). \<forall>d \<in> set recs.
      Phase d = Some pd \<longrightarrow> found_style (categoryColorData_of st recs) d \<noteq> None"
    using assms(6) unfolding found_style_None assms(5) by simp
  have "fst (update h this options) = None"
    by (rule update_returns(1) [OF p found [unfolded st_def]])
  moreover have "map_option children
         (select_first ''companies-wrap'' (target (snd (update h this options))))
       = Some (map (\<lambda>pd. Elem ''div'' [(''class'', ''phase-companies'')] [] []
                      (map (\<lambda>d. company_block (the (found_style ccd d)) d)
                         (filter (\<lambda>d. Phase d = Some pd) recs)))
                 (phaseData_of st))"
    unfolding companies_children [OF update_returns(2) [OF p found [unfolded st_def]]]
    by (simp add: comp_def st_def assms(5))
  ultimately show ?thesis
    by (intro conjI)
qed

theorem update_companies_area_witness:
  "fst (update (example_host [] [] []) constructor example_options) = None
   \<and> map_option children
       (select_first ''companies-wrap''
          (target (snd (update (example_host [] [] []) constructor example_options))))
     = Some [Elem ''div'' [(''class'', ''phase-companies'')] [] []
               [Elem ''div'' [(''class'', ''company'')] [] []
                  [Elem ''p'' [(''class'', ''company-name''), (''style'', ''color:#2ECC71;'')] []
                     ''Acme'' [],
                   Elem ''p'' [(''class'', ''product-name''), (''style'', ''color:#2ECC71;'')] []
                     ''WidgetA'' []]],
             Elem ''div'' [(''class'', ''phase-companies'')] [] []
               [Elem ''div'' [(''class'', ''company'')] [] []
                  [Elem ''p'' [(''class'', ''company-name''), (''style'', ''color:#2ECC71;'')] []
                     ''Globex'' [],
                   Elem ''p'' [(''class'', ''product-name''), (''style'', ''color:#2ECC71;'')] []
                     ''WidgetB'' []]]]"
proof -
  let ?h = "example_host [] [] []"
  let ?ccd = "[\<lparr>category = Some ''Sales'', color = Some ''#2ECC71''\<rparr>]"
  have a: "dataViews example_options = Some [\<lparr>table = Some example_table\<rparr>]"
    by (simp add: example_options_def)
  have b: "table \<lparr>table = Some example_table\<rparr> = Some example_table"
    by simp
  have c: "example_records
      = take 250 (records_of (CONVERTER (numbers ?h) (Some \<lparr>table = Some example_table\<rparr>)))"
    unfolding example_host_parts example_converted records_of_def
    by (simp add: example_records_def)
  have d: "?ccd = categoryColorData_of (parseSettings ?h (guarded_dataView example_options))
                    example_records"
    unfolding example_host_parts example_categories_unset ..
  have e: "\<forall>pd \<in> set (phaseData_of (parseSettings ?h (guarded_dataView example_options))).
      \<forall>d \<in> set example_records.
        Phase d = Some pd \<longrightarrow> (\<exists>cd \<in> set ?ccd. category cd = Category d)"
    by (simp add: example_records_def)
  have groups: "map (\<lambda>pd. Elem ''div'' [(''class'', ''phase-companies'')] [] []
                      (map (\<lambda>d. company_block (the (found_style ?ccd d)) d)
                         (filter (\<lambda>d. Phase d = Some pd) example_records)))
                 (phaseData_of (parseSettings ?h (guarded_dataView example_options)))
      = [Elem ''div'' [(''class'', ''phase-companies'')] [] []
               [Elem ''div'' [(''class'', ''company'')] [] []
                  [Elem ''p'' [(''class'', ''company-name''), (''style'', ''color:#2ECC71;'')] []
                     ''Acme'' [],
                   Elem ''p'' [(''class'', ''product-name''), (''style'', ''color:#2ECC71;'')] []
                     ''WidgetA'' []]],
             Elem ''div'' [(''class'', ''phase-companies'')] [] []
               [Elem ''div'' [(''class'', ''company'')] [] []
                  [Elem ''p'' [(''class'', ''company-name''), (''style'', ''color:#2ECC71;'')] []
                     ''Globex'' [],
                   Elem ''p'' [(''class'', ''product-name''), (''style'', ''color:#2ECC71;'')] []
                     ''WidgetB'' []]]]"
    unfolding example_host_parts example_settings_parts
    by (simp add: example_records_def company_block_def found_style_def)
  show ?thesis
    using update_companies_area [OF a b c d e, of constructor] unfolding groups .
qed


section \<open>The bands\<close>

lemma class_names_legend: "class_names ''legend'' = [''legend'']"
  by (simp add: class_names_def is_space_def)

lemma example_legend:
  "map legend_node (categoryColorData_of (parseSettings (example_host lay [] url) dv) example_records)
     = [Elem ''div'' [(''class'', ''legend'')] [] []
          [Elem ''p'' [(''style'', ''color:#2ECC71;'')] [] ''Sales'' []]]"
  by (simp add: example_host_parts example_categories_unset legend_node_def text_of_def)

text \<open>
  The update with the layout \<open>Header\<close> and an image address writes the header band, and
  the later steps leave it.
\<close>

lemma banded_header:
  "header banded_visual
     = Elem ''div'' [(''class'', ''visual-header'')] [] []
         [Elem ''img'' [(''src'', ''logo.png'')] [] [] []]"
proof -
  let ?h = "example_host ''Header'' [] ''logo.png''"
  let ?laid = "snd (renderLayout ?h (sized_visual ?h constructor example_options))"
  have "header ?laid
      = html (parseHTML ?h (band_markup (parseSettings ?h (guarded_dataView example_options))))
          (attr ''class'' ''visual-header'' (header (constructor :: int Visual)))"
    by (rule laid_visual(5)) (simp add: example_host_parts example_settings_parts example_layouts)
  then have l: "header ?laid
      = Elem ''div'' [(''class'', ''visual-header'')] [] []
          [Elem ''img'' [(''src'', ''logo.png'')] [] [] []]"
    by (simp add: example_host_parts band_markup_def example_settings_parts example_parser_def
        html_def attr_def constructor_parts(1))
  have clean: "select_first ''pipeline-wrap'' (header ?laid) = None"
    "select_first ''companies-wrap'' (header ?laid) = None"
    "select_first ''pipeline-bar'' (header ?laid) = None"
    unfolding l by (simp_all add: has_class_def class_names_written)
  show ?thesis
    unfolding banded_visual_def update_frame(4) [OF example_host_records clean] by (rule l)
qed

text \<open>
  With the image address that brings an element of class \<open>pipeline-wrap\<close>, the update with
  the layout \<open>header\<close> writes the band and puts its legend into it; the next update, with no
  layout, puts its legend there too.
\<close>

lemma wrapped_header:
  "header wrapped_visual
     = Elem ''div'' [(''class'', ''visual-header'')] [] []
         [Elem ''img'' [(''src'', ''x'')] [] [] [],
          Elem ''div'' [(''class'', ''pipeline-wrap'')] [] []
            [Elem ''div'' [(''class'', ''legend-wrap'')] [] []
               [Elem ''div'' [(''class'', ''legend'')] [] []
                  [Elem ''p'' [(''style'', ''color:#2ECC71;'')] [] ''Sales'' []]]],
          Elem ''img'' [(''src'', [])] [] [] []]"
proof -
  let ?h = "example_host ''header'' [] wrapping_url"
  let ?laid = "snd (renderLayout ?h (sized_visual ?h constructor example_options))"
  let ?h' = "Elem ''div'' [(''class'', ''visual-header'')] [] []
         [Elem ''img'' [(''src'', ''x'')] [] [] [],
          Elem ''div'' [(''class'', ''pipeline-wrap'')] [] []
            [Elem ''div'' [(''class'', ''legend-wrap'')] [] []
               [Elem ''div'' [(''class'', ''legend'')] [] []
                  [Elem ''p'' [(''style'', ''color:#2ECC71;'')] [] ''Sales'' []]]],
          Elem ''img'' [(''src'', [])] [] [] []]"
  have "header ?laid
      = html (parseHTML ?h (band_markup (parseSettings ?h (guarded_dataView example_options))))
          (attr ''class'' ''visual-header'' (header (constructor :: int Visual)))"
    by (rule laid_visual(5)) (simp add: example_host_parts example_settings_parts example_layouts)
  then have l: "header ?laid
      = Elem ''div'' [(''class'', ''visual-header'')] [] []
          [Elem ''img'' [(''src'', ''x'')] [] [] [],
           Elem ''div'' [(''class'', ''pipeline-wrap'')] [] [] [],
           Elem ''img'' [(''src'', [])] [] [] []]"
    by (simp add: example_host_parts band_markup_def example_settings_parts example_parser_def
        wrapping_url_def html_def attr_def constructor_parts(1))
  have legend: "modify_first ''pipeline-wrap''
       (\<lambda>n. append_child n (Elem ''div'' [(''class'', ''legend-wrap'')] [] []
          (map legend_node (categoryColorData_of (parseSettings ?h (guarded_dataView example_options))
             example_records))))
       (header ?laid) = Some ?h'"
    unfolding l example_legend
    by (simp add: has_class_def class_names_written append_child_def)
  have clean: "select_first ''companies-wrap'' ?h' = None" "select_first ''pipeline-bar'' ?h' = None"
    by (simp_all add: has_class_def class_names_written class_names_legend)
  show ?thesis
    unfolding wrapped_visual_def
    by (rule update_header_legend [OF example_host_records example_found legend clean])
qed

lemma rewrapped_header:
  "header (snd (update (example_host [] [] []) wrapped_visual example_options))
     = Elem ''div'' [(''class'', ''visual-header'')] [] []
         [Elem ''img'' [(''src'', ''x'')] [] [] [],
          Elem ''div'' [(''class'', ''pipeline-wrap'')] [] []
            [Elem ''div'' [(''class'', ''legend-wrap'')] [] []
               [Elem ''div'' [(''class'', ''legend'')] [] []
                  [Elem ''p'' [(''style'', ''color:#2ECC71;'')] [] ''Sales'' []]],
             Elem ''div'' [(''class'', ''legend-wrap'')] [] []
               [Elem ''div'' [(''class'', ''legend'')] [] []
                  [Elem ''p'' [(''style'', ''color:#2ECC71;'')] [] ''Sales'' []]]],
          Elem ''img'' [(''src'', [])] [] [] []]"
proof -
  let ?h = "example_host [] [] []"
  let ?laid = "snd (renderLayout ?h (sized_visual ?h wrapped_visual example_options))"
  let ?h' = "Elem ''div'' [(''class'', ''visual-header'')] [] []
         [Elem ''img'' [(''src'', ''x'')] [] [] [],
          Elem ''div'' [(''class'', ''pipeline-wrap'')] [] []
            [Elem ''div'' [(''class'', ''legend-wrap'')] [] []
               [Elem ''div'' [(''class'', ''legend'')] [] []
                  [Elem ''p'' [(''style'', ''color:#2ECC71;'')] [] ''Sales'' []]],
             Elem ''div'' [(''class'', ''legend-wrap'')] [] []
               [Elem ''div'' [(''class'', ''legend'')] [] []
                  [Elem ''p'' [(''style'', ''color:#2ECC71;'')] [] ''Sales'' []]]],
          Elem ''img'' [(''src'', [])] [] [] []]"
  have "header ?laid = header wrapped_visual"
    by (rule laid_visual(3)) (simp add: example_host_parts example_settings_parts example_layouts)
  note l = this [unfolded wrapped_header]
  have legend: "modify_first ''pipeline-wrap''
       (\<lambda>n. append_child n (Elem ''div'' [(''class'', ''legend-wrap'')] [] []
          (map legend_node (categoryColorData_of (parseSettings ?h (guarded_dataView example_options))
             example_records))))
       (header ?laid) = Some ?h'"
    unfolding l example_legend
    by (simp add: has_class_def class_names_written append_child_def)
  have clean: "select_first ''companies-wrap'' ?h' = None" "select_first ''pipeline-bar'' ?h' = None"
    by (simp_all add: has_class_def class_names_written class_names_legend)
  show ?thesis
    by (rule update_header_legend [OF example_host_records example_found legend clean])
qed

text \<open>
  Claim C10, where the code departs from it. The layout setting \<open>Header\<close> is neither
  \<open>header\<close> nor \<open>footer\<close>, and the update writes the header band. And after an update that
  left an element of class \<open>pipeline-wrap\<close> in the header band, an update with no layout
  appends its legend to that element: the header is changed again.
\<close>

theorem update_keeps_bands_counterexample:
  "layout (pipeline (parseSettings (example_host ''Header'' [] ''logo.png'')
                       (guarded_dataView example_options))) \<noteq> ''header''
   \<and> layout (pipeline (parseSettings (example_host ''Header'' [] ''logo.png'')
                         (guarded_dataView example_options))) \<noteq> ''footer''
   \<and> header (snd (update (example_host ''Header'' [] ''logo.png'') constructor example_options))
       \<noteq> header (constructor :: int Visual)
   \<and> layout (pipeline (parseSettings (example_host [] [] []) (guarded_dataView example_options)))
       \<noteq> ''header''
   \<and> layout (pipeline (parseSettings (example_host [] [] []) (guarded_dataView example_options)))
       \<noteq> ''footer''
   \<and> header (snd (update (example_host [] [] []) wrapped_visual example_options))
       \<noteq> header wrapped_visual"
proof (intro conjI)
  show "layout (pipeline (parseSettings (example_host ''Header'' [] ''logo.png'')
                       (guarded_dataView example_options))) \<noteq> ''header''"
    by (simp add: example_host_parts example_settings_parts)
  show "layout (pipeline (parseSettings (example_host ''Header'' [] ''logo.png'')
                       (guarded_dataView example_options))) \<noteq> ''footer''"
    by (simp add: example_host_parts example_settings_parts)
  show "header (snd (update (example_host ''Header'' [] ''logo.png'') constructor example_options))
       \<noteq> header (constructor :: int Visual)"
    using banded_header unfolding banded_visual_def by (simp add: constructor_parts(1))
  show "layout (pipeline (parseSettings (example_host [] [] []) (guarded_dataView example_options)))
       \<noteq> ''header''"
    by (simp add: example_host_parts example_settings_parts)
  show "layout (pipeline (parseSettings (example_host [] [] []) (guarded_dataView example_options)))
       \<noteq> ''footer''"
    by (simp add: example_host_parts example_settings_parts)
  show "header (snd (update (example_host [] [] []) wrapped_visual example_options))
       \<noteq> header wrapped_visual"
    unfolding rewrapped_header wrapped_header by simp
qed

text \<open>
  Claim C10, as the code has it. When the layout setting in lower case is neither \<open>header\<close>
  nor \<open>footer\<close>, an update, whether it returns or raises, leaves the footer as it was; and
  it leaves the header as it was when the header has no element of class \<open>pipeline-wrap\<close>,
  \<open>companies-wrap\<close> or \<open>pipeline-bar\<close>. So a band written by an earlier update stays.
\<close>

theorem update_keeps_bands:
  assumes "toLowerCase (layout (pipeline (parseSettings h (guarded_dataView options)))) \<noteq> ''header''"
    and "toLowerCase (layout (pipeline (parseSettings h (guarded_dataView options)))) \<noteq> ''footer''"
  shows "footer (snd (update h this options)) = footer this
     \<and> (select_first ''pipeline-wrap'' (header this) = None
        \<and> select_first ''companies-wrap'' (header this) = None
        \<and> select_first ''pipeline-bar'' (header this) = None
        \<longrightarrow> header (snd (update h this options)) = header this)"
proof (intro conjI impI)
  show "footer (snd (update h this options)) = footer this"
    by (rule update_frame(2) [OF assms(2)])
  show "header (snd (update h this options)) = header this"
    if "select_first ''pipeline-wrap'' (header this) = None
        \<and> select_first ''companies-wrap'' (header this) = None
        \<and> select_first ''pipeline-bar'' (header this) = None"
    using that by (elim conjE) (rule update_frame(3) [OF assms(1)])
qed

theorem update_keeps_bands_witness:
  "header banded_visual
     = Elem ''div'' [(''class'', ''visual-header'')] [] []
         [Elem ''img'' [(''src'', ''logo.png'')] [] [] []]
   \<and> footer (snd (update (example_host [] [] []) banded_visual example_options))
       = footer banded_visual
   \<and> header (snd (update (example_host [] [] []) banded_visual example_options))
       = header banded_visual"
proof -
  let ?h = "example_host [] [] []"
  have lay: "toLowerCase (layout (pipeline (parseSettings ?h (guarded_dataView example_options)))) \<noteq> ''header''"
    "toLowerCase (layout (pipeline (parseSettings ?h (guarded_dataView example_options)))) \<noteq> ''footer''"
    by (simp_all add: example_host_parts example_settings_parts example_layouts)
  have clean: "select_first ''pipeline-wrap'' (header banded_visual) = None
        \<and> select_first ''companies-wrap'' (header banded_visual) = None
        \<and> select_first ''pipeline-bar'' (header banded_visual) = None"
    unfolding banded_header by (simp add: has_class_def class_names_written)
  show ?thesis
    using update_keeps_bands [OF lay, of banded_visual] clean banded_header by simp
qed

end
